theory Spec2Isabelle
  imports Main
begin

section \<open>Data model (types.ts)\<close>

text \<open>
  Enumerations of \<^verbatim>\<open>types.ts\<close> become datatypes. The status literals
  \<^verbatim>\<open>'PENDING'\<close> are shared by three unions in the source; the constructors
  here carry a prefix to keep them apart. Record fields carry a prefix for the same
  reason (\<^verbatim>\<open>id\<close>, \<^verbatim>\<open>status\<close> occur in every interface).
  Optional fields (\<^verbatim>\<open>f?: T\<close>) are \<open>T option\<close>. Timestamps
  (\<^verbatim>\<open>Date.now()\<close>) are natural numbers.
\<close>

datatype UserRole = MANAGER | AGENT

record User =
  user_id :: string
  username :: string
  user_name :: string
  role :: UserRole

datatype TaskStatus = TODO | IN_PROGRESS | ON_HOLD | DONE

datatype TaskPriority = LOW | MEDIUM | HIGH | CRITICAL

datatype TaskType = AUGMENTING | QA | CHECK_404 | INVOICE_PROCESSING | DATA_REFRESHER

record TaskNote =
  note_id :: string
  note_authorId :: string
  note_authorName :: string
  note_text :: string
  note_timestamp :: nat

datatype AttachmentType = pdf | csv | img | doc

record TaskAttachment =
  att_name :: string
  att_url :: "string option"
  att_type :: AttachmentType

record Task =
  task_id :: string
  title :: string
  description :: string
  assigneeId :: string
  task_status :: TaskStatus
  priority :: TaskPriority
  task_type :: TaskType
  tags :: "string list option"
  dueDate :: string
  createdAt :: nat
  completedAt :: "nat option"
  task_notes :: "TaskNote list option"
  attachments :: "TaskAttachment list option"
  isEscalated :: "bool option"
  inventoryFileId :: "string option"
  inventoryItemIds :: "string list option"

record EscalationMessage =
  msg_id :: string
  authorId :: string
  authorName :: string
  msg_role :: UserRole
  msg_text :: string
  msg_timestamp :: nat

datatype EscalationStatus = E_PENDING | E_RESPONDED | E_CLOSED

record Escalation =
  esc_id :: string
  taskId :: string
  taskTitle :: string
  agentId :: string
  agentName :: string
  link :: "string option"
  history :: "EscalationMessage list"
  esc_status :: EscalationStatus
  esc_createdAt :: nat
  updatedAt :: nat

datatype InventoryStatus =
  I_PENDING | ASSIGNED_AUGMENTATION | AUGMENTED | ASSIGNED_QA | QA_COMPLETE

text \<open>
  Of an inventory row only the fields the workflow reads are kept; the CSV columns
  (product id, name, model, ...) play no part in any rule.
\<close>

record InventoryItem =
  item_id :: string
  item_status :: InventoryStatus
  item_assigneeId :: "string option"

record InventoryFile =
  file_id :: string
  fileName :: string
  uploadDate :: nat
  rowCount :: nat
  data :: "InventoryItem list"

record InvoiceFileMeta =
  file_name :: string
  file_size :: string
  file_type :: AttachmentType
  file_content :: "string option"

datatype InvoiceStatus = V_PENDING | V_ASSIGNED | V_COMPLETED | V_UPLOADED

record Invoice =
  inv_id :: string
  referenceName :: string
  inv_status :: InvoiceStatus
  pdfFile :: InvoiceFileMeta
  csvFile :: "InvoiceFileMeta option"
  finalCsvFile :: "InvoiceFileMeta option"
  inv_assigneeId :: "string option"
  assigneeName :: "string option"
  startDate :: "string option"
  inv_dueDate :: "string option"
  isPreProcessed :: bool
  inv_createdAt :: nat
  inv_completedAt :: "nat option"

section \<open>Commands to the storage service (storageService.ts)\<close>

text \<open>
  Every handler of \<^verbatim>\<open>App\<close> ends in calls of \<^verbatim>\<open>storageService\<close>. A handler
  is modelled as the list of calls it makes, in order.
\<close>

datatype Command =
    AddTask Task
  | UpdateTask Task
  | DeleteTask string
  | SaveInvoice Invoice
  | DeleteInvoice string
  | SaveEscalation Escalation

text \<open>JavaScript truthiness of an optional string: \<^verbatim>\<open>undefined\<close> and \<^verbatim>\<open>''\<close> are falsy.\<close>

fun truthy :: "string option \<Rightarrow> bool" where
  "truthy None = False"
| "truthy (Some s) = (s \<noteq> [])"

text \<open>\<^verbatim>\<open>a || b\<close> on an optional string \<^verbatim>\<open>a\<close> and a string \<^verbatim>\<open>b\<close>.\<close>

fun orElse :: "string option \<Rightarrow> string \<Rightarrow> string" where
  "orElse None d = d"
| "orElse (Some s) d = (if s = [] then d else s)"

section \<open>Automated task completion (App, third effect)\<close>

text \<open>
  \<^verbatim>\<open>escalations.some(e => e.taskId === task.id && e.status !== 'CLOSED')\<close>
\<close>

definition hasActiveEscalation :: "Escalation list \<Rightarrow> Task \<Rightarrow> bool" where
  "hasActiveEscalation escalations task =
     list_ex (\<lambda>e. taskId e = task_id task \<and> esc_status e \<noteq> E_CLOSED) escalations"

text \<open>The callback of \<^verbatim>\<open>relevantItems.every\<close>.\<close>

definition itemComplete :: "Task \<Rightarrow> InventoryItem \<Rightarrow> bool" where
  "itemComplete task item =
     (if task_type task = QA then item_status item = QA_COMPLETE
      else item_status item = AUGMENTED \<or> item_status item = QA_COMPLETE)"

text \<open>
  \<^verbatim>\<open>inventory.data.filter(item => task.inventoryItemIds?.includes(item.id))\<close>
\<close>

definition relevantItems :: "Task \<Rightarrow> InventoryFile \<Rightarrow> InventoryItem list" where
  "relevantItems task inventory =
     filter (\<lambda>item. case inventoryItemIds task of
                       None \<Rightarrow> False
                     | Some ids \<Rightarrow> item_id item \<in> set ids) (data inventory)"

text \<open>
  The body of \<^verbatim>\<open>tasks.forEach(task => ...)\<close>: each early \<^verbatim>\<open>return\<close> is a branch
  with no command. \<open>now\<close> is the value of \<^verbatim>\<open>Date.now()\<close>.
\<close>

definition autoCompleteTask ::
  "nat \<Rightarrow> InventoryFile list \<Rightarrow> Escalation list \<Rightarrow> Task \<Rightarrow> Command list" where
  "autoCompleteTask now inventories escalations task =
     (if task_status task = DONE then []
      else if \<not> truthy (inventoryFileId task) \<or> inventoryItemIds task = None
              \<or> inventoryItemIds task = Some [] then []
      else if hasActiveEscalation escalations task then []
      else (case find (\<lambda>inv. Some (file_id inv) = inventoryFileId task) inventories of
              None \<Rightarrow> []
            | Some inventory \<Rightarrow>
                if relevantItems task inventory = [] then []
                else if list_all (itemComplete task) (relevantItems task inventory)
                then [UpdateTask (task\<lparr>task_status := DONE, completedAt := Some now\<rparr>)]
                else []))"

definition autoCompleteEffect ::
  "nat \<Rightarrow> Task list \<Rightarrow> InventoryFile list \<Rightarrow> Escalation list \<Rightarrow> Command list" where
  "autoCompleteEffect now tasks inventories escalations =
     (if tasks = [] \<or> inventories = [] then []
      else concat (map (autoCompleteTask now inventories escalations) tasks))"

text \<open>The task a command writes, if it writes one.\<close>

fun writtenTask :: "Command \<Rightarrow> Task option" where
  "writtenTask (AddTask t) = Some t"
| "writtenTask (UpdateTask t) = Some t"
| "writtenTask _ = None"

definition writesTaskId :: "string \<Rightarrow> Command \<Rightarrow> bool" where
  "writesTaskId i c = (case writtenTask c of None \<Rightarrow> False | Some t \<Rightarrow> task_id t = i)"

section \<open>Text helpers\<close>

definition dq :: string where
  "dq = [CHR 0x22]"

text \<open>
  The two message icons. The literals of the source are not the glyphs their author
  meant (a check mark and a rotating light) but the characters those glyphs turn into
  when their bytes are read in a one-byte encoding: seven bytes at \<^verbatim>\<open>types.ts\<close> line
  388, eight at line 407. These characters are what the code emits; they are given here
  by the bytes of the source file.
\<close>

definition checkIcon :: string where
  "checkIcon = [CHR 0xC3, CHR 0xA2, CHR 0xC5, CHR 0x93, CHR 0xE2, CHR 0x80, CHR 0xA6]"

definition alarmIcon :: string where
  "alarmIcon = [CHR 0xC3, CHR 0xB0, CHR 0xC5, CHR 0xB8, CHR 0xC5, CHR 0xA1, CHR 0xC2, CHR 0xA8]"

fun taskStatusStr :: "TaskStatus \<Rightarrow> string" where
  "taskStatusStr TODO = ''TODO''"
| "taskStatusStr IN_PROGRESS = ''IN_PROGRESS''"
| "taskStatusStr ON_HOLD = ''ON_HOLD''"
| "taskStatusStr DONE = ''DONE''"

fun invoiceStatusStr :: "InvoiceStatus \<Rightarrow> string" where
  "invoiceStatusStr V_PENDING = ''PENDING''"
| "invoiceStatusStr V_ASSIGNED = ''ASSIGNED''"
| "invoiceStatusStr V_COMPLETED = ''COMPLETED''"
| "invoiceStatusStr V_UPLOADED = ''UPLOADED''"

fun escalationStatusStr :: "EscalationStatus \<Rightarrow> string" where
  "escalationStatusStr E_PENDING = ''PENDING''"
| "escalationStatusStr E_RESPONDED = ''RESPONDED''"
| "escalationStatusStr E_CLOSED = ''CLOSED''"

text \<open>\<^verbatim>\<open>s.replace('_', ' ')\<close>: only the first occurrence is replaced.\<close>

fun replaceUnderscore :: "string \<Rightarrow> string" where
  "replaceUnderscore [] = []"
| "replaceUnderscore (c # cs) = (if c = CHR ''_'' then CHR '' '' # cs else c # replaceUnderscore cs)"

text \<open>A template literal prints \<^verbatim>\<open>undefined\<close> for a missing optional string.\<close>

fun interp :: "string option \<Rightarrow> string" where
  "interp None = ''undefined''"
| "interp (Some s) = s"

text \<open>Decimal digits of a number, as \<^verbatim>\<open>`${Date.now()}`\<close> prints them.\<close>

definition digit :: "nat \<Rightarrow> char" where
  "digit d = ''0123456789'' ! d"

function showNat :: "nat \<Rightarrow> string" where
  "showNat n = (if n < 10 then [digit n] else showNat (n div 10) @ [digit (n mod 10)])"
  by pat_completeness auto
termination
  by (relation "measure id") auto

section \<open>Notification and detection logic (App, second effect)\<close>

text \<open>
  \<^verbatim>\<open>addNotification(title, message, true)\<close> and \<^verbatim>\<open>sendToSlack(msg)\<close> are the two
  outputs of the effect. The id and timestamp of a notification come from
  \<^verbatim>\<open>Date.now()\<close> and \<^verbatim>\<open>Math.random()\<close> and are left out.
\<close>

datatype Effect =
    AddNotification string string
  | SendToSlack string

text \<open>The four refs the effect reads and writes.\<close>

record Refs =
  prevTasksRef :: "Task list"
  prevInvoicesRef :: "Invoice list"
  prevEscalationsRef :: "Escalation list"
  isFirstLoad :: bool

text \<open>The body of \<^verbatim>\<open>tasks.forEach(newTask => ...)\<close>.\<close>

definition taskDelta :: "User \<Rightarrow> User list \<Rightarrow> Task list \<Rightarrow> Task \<Rightarrow> Effect list" where
  "taskDelta currentUser users prevTasks newTask =
     (case find (\<lambda>t. task_id t = task_id newTask) prevTasks of
        None \<Rightarrow>
          if assigneeId newTask = user_id currentUser \<or> role currentUser = MANAGER
          then [AddNotification ''New Task Assigned''
                  (''Task '' @ dq @ title newTask @ dq @ '' assigned to ''
                   @ orElse (map_option user_name
                               (find (\<lambda>u. user_id u = assigneeId newTask) users)) ''someone''
                   @ ''.'')]
          else []
      | Some oldTask \<Rightarrow>
          if task_status oldTask \<noteq> task_status newTask
          then (if assigneeId newTask = user_id currentUser \<or> role currentUser = MANAGER
                then [AddNotification
                        (if task_status newTask = DONE then ''Task Completed'' else ''Task Updated'')
                        (dq @ title newTask @ dq @ '' moved to ''
                         @ replaceUnderscore (taskStatusStr (task_status newTask)) @ ''.'')]
                else [])
          else [])"

text \<open>The body of \<^verbatim>\<open>invoices.forEach(newInv => ...)\<close>.\<close>

definition invoiceDelta :: "User \<Rightarrow> Invoice list \<Rightarrow> Invoice \<Rightarrow> Effect list" where
  "invoiceDelta currentUser prevInvoices newInv =
     (case find (\<lambda>i. inv_id i = inv_id newInv) prevInvoices of
        None \<Rightarrow>
          if inv_assigneeId newInv = Some (user_id currentUser) \<or> role currentUser = MANAGER
          then [AddNotification ''New Invoice Slot''
                  (''Invoice '' @ dq @ referenceName newInv @ dq @ '' created.'')]
          else []
      | Some oldInv \<Rightarrow>
          (if inv_status oldInv \<noteq> V_COMPLETED \<and> inv_status newInv = V_COMPLETED
           then (if role currentUser = MANAGER
                 then (let msg = checkIcon @ '' Invoice Completed: '' @ dq @ referenceName newInv
                                 @ dq @ '' by '' @ interp (assigneeName newInv)
                                 @ ''. Ready for upload.''
                       in [AddNotification ''Invoice Ready'' msg, SendToSlack msg])
                 else [])
           else [])
          @ (if inv_status oldInv \<noteq> inv_status newInv \<and> inv_status newInv \<noteq> V_COMPLETED
             then (if inv_assigneeId newInv = Some (user_id currentUser)
                      \<or> role currentUser = MANAGER
                   then [AddNotification ''Invoice Status''
                           (dq @ referenceName newInv @ dq @ '' is now ''
                            @ invoiceStatusStr (inv_status newInv) @ ''.'')]
                   else [])
             else []))"

text \<open>
  The body of \<^verbatim>\<open>escalations.forEach(newEsc => ...)\<close>. In the last branch the new
  history is longer than the old one, hence not empty, and
  \<^verbatim>\<open>newEsc.history[newEsc.history.length - 1]\<close> is its last element.
\<close>

definition escalationDelta :: "User \<Rightarrow> Escalation list \<Rightarrow> Escalation \<Rightarrow> Effect list" where
  "escalationDelta currentUser prevEscalations newEsc =
     (case find (\<lambda>e. esc_id e = esc_id newEsc) prevEscalations of
        None \<Rightarrow>
          if role currentUser = MANAGER \<or> agentId newEsc = user_id currentUser
          then (let msg = alarmIcon @ '' Escalation Raised: '' @ dq @ taskTitle newEsc @ dq
                          @ '' by '' @ agentName newEsc @ ''.''
                in AddNotification ''Escalation Raised'' msg
                   # (if role currentUser \<noteq> MANAGER then [SendToSlack msg] else []))
          else []
      | Some oldEsc \<Rightarrow>
          if esc_status oldEsc \<noteq> esc_status newEsc
          then (if role currentUser = MANAGER \<or> agentId newEsc = user_id currentUser
                then [AddNotification ''Escalation Update''
                        (''Escalation for '' @ dq @ taskTitle newEsc @ dq @ '' is ''
                         @ escalationStatusStr (esc_status newEsc) @ ''.'')]
                else [])
          else if length (history newEsc) > length (history oldEsc)
          then (let lastMsg = last (history newEsc)
                in if authorId lastMsg \<noteq> user_id currentUser
                   then [AddNotification ''New Message''
                           (''New reply in escalation for '' @ dq @ taskTitle newEsc @ dq @ ''.'')]
                   else [])
          else [])"

text \<open>
  One run of the effect: the refs before, the collections and the viewer of this render;
  the refs after and the outputs, in the order they are made.
\<close>

definition notificationEffect ::
  "Refs \<Rightarrow> Task list \<Rightarrow> Invoice list \<Rightarrow> Escalation list \<Rightarrow> User option \<Rightarrow> User list
     \<Rightarrow> Refs \<times> Effect list" where
  "notificationEffect refs tasks invoices escalations currentUser users =
     (if isFirstLoad refs
      then (if tasks \<noteq> [] \<or> invoices \<noteq> []
            then (refs\<lparr>prevTasksRef := tasks, prevInvoicesRef := invoices,
                       prevEscalationsRef := escalations, isFirstLoad := False\<rparr>, [])
            else (refs, []))
      else (case currentUser of
              None \<Rightarrow> (refs, [])
            | Some cu \<Rightarrow>
                (refs\<lparr>prevTasksRef := tasks, prevInvoicesRef := invoices,
                       prevEscalationsRef := escalations\<rparr>,
                 concat (map (taskDelta cu users (prevTasksRef refs)) tasks)
                 @ concat (map (invoiceDelta cu (prevInvoicesRef refs)) invoices)
                 @ concat (map (escalationDelta cu (prevEscalationsRef refs)) escalations))))"

fun isNotification :: "Effect \<Rightarrow> bool" where
  "isNotification (AddNotification _ _) = True"
| "isNotification (SendToSlack _) = False"

fun isSlack :: "Effect \<Rightarrow> bool" where
  "isSlack (SendToSlack _) = True"
| "isSlack (AddNotification _ _) = False"

fun hasTitle :: "string \<Rightarrow> Effect \<Rightarrow> bool" where
  "hasTitle t (AddNotification t' _) = (t' = t)"
| "hasTitle t (SendToSlack _) = False"

section \<open>The alert channel (sendToSlack, ProfileSettings)\<close>

text \<open>
  \<^verbatim>\<open>sendToSlack\<close> reads the webhook from the \<^verbatim>\<open>localStorage\<close> of the browser it runs
  in and returns without a request when none is stored
  (\<^verbatim>\<open>if (!webhookUrl) return\<close>); otherwise it posts the message to the webhook. A
  failing request is caught and logged. The result here is the list of requests made,
  each the url and the text.
\<close>

definition sendToSlack :: "string option \<Rightarrow> string \<Rightarrow> (string \<times> string) list" where
  "sendToSlack webhookUrl message =
     (case webhookUrl of
        None \<Rightarrow> []
      | Some url \<Rightarrow> if url = [] then [] else [(url, message)])"

text \<open>
  The requests that the outputs of one run of the notification effect make, in a browser
  whose \<^verbatim>\<open>localStorage\<close> holds \<open>webhookUrl\<close>.
\<close>

fun slackRequest :: "string option \<Rightarrow> Effect \<Rightarrow> (string \<times> string) list" where
  "slackRequest webhookUrl (SendToSlack msg) = sendToSlack webhookUrl msg"
| "slackRequest webhookUrl (AddNotification _ _) = []"

definition slackRequests :: "string option \<Rightarrow> Effect list \<Rightarrow> (string \<times> string) list" where
  "slackRequests webhookUrl effects = concat (map (slackRequest webhookUrl) effects)"

text \<open>
  The only place that stores a webhook is the integrations card of the profile page,
  rendered under \<^verbatim>\<open>user.role === UserRole.MANAGER\<close>; it writes to the
  \<^verbatim>\<open>localStorage\<close> of the browser the manager is using.
\<close>

definition integrationsCardShown :: "User \<Rightarrow> bool" where
  "integrationsCardShown user = (role user = MANAGER)"

section \<open>Handlers of App\<close>

text \<open>\<^verbatim>\<open>handleTaskUpdate\<close>, passed to the boards as \<^verbatim>\<open>onUpdateTask\<close>.\<close>

definition handleTaskUpdate :: "Task \<Rightarrow> Command list" where
  "handleTaskUpdate updatedTask = [UpdateTask updatedTask]"

definition handleEscalateTask ::
  "User option \<Rightarrow> nat \<Rightarrow> Task \<Rightarrow> string \<Rightarrow> string option \<Rightarrow> Command list" where
  "handleEscalateTask currentUser now task reason lnk =
     (case currentUser of
        None \<Rightarrow> []
      | Some cu \<Rightarrow>
          (let initialMessage =
                 \<lparr>msg_id = ''msg-'' @ showNat now, authorId = user_id cu,
                  authorName = user_name cu, msg_role = role cu, msg_text = reason,
                  msg_timestamp = now\<rparr>;
               escalation =
                 \<lparr>esc_id = ''esc-'' @ showNat now, taskId = task_id task,
                  taskTitle = title task, agentId = user_id cu, agentName = user_name cu,
                  link = lnk, history = [initialMessage], esc_status = E_PENDING,
                  esc_createdAt = now, updatedAt = now\<rparr>
           in [SaveEscalation escalation, UpdateTask (task\<lparr>isEscalated := Some True\<rparr>)]))"

definition handleEscalationReply ::
  "User option \<Rightarrow> nat \<Rightarrow> Escalation \<Rightarrow> string \<Rightarrow> Command list" where
  "handleEscalationReply currentUser now esc messageText =
     (case currentUser of
        None \<Rightarrow> []
      | Some cu \<Rightarrow>
          (let newMessage =
                 \<lparr>msg_id = ''msg-'' @ showNat now, authorId = user_id cu,
                  authorName = user_name cu, msg_role = role cu, msg_text = messageText,
                  msg_timestamp = now\<rparr>;
               newStatus = (if role cu = MANAGER then E_RESPONDED else E_PENDING)
           in [SaveEscalation (esc\<lparr>history := history esc @ [newMessage],
                                     esc_status := newStatus, updatedAt := now\<rparr>)]))"

definition handleCloseEscalation :: "nat \<Rightarrow> Task list \<Rightarrow> Escalation \<Rightarrow> Command list" where
  "handleCloseEscalation now tasks esc =
     SaveEscalation (esc\<lparr>esc_status := E_CLOSED, updatedAt := now\<rparr>)
     # (case find (\<lambda>t. task_id t = taskId esc) tasks of
          None \<Rightarrow> []
        | Some task \<Rightarrow> [UpdateTask (task\<lparr>isEscalated := Some False\<rparr>)])"

text \<open>
  The manager-review task built inside \<^verbatim>\<open>handleUpdateInvoice\<close>. \<open>toISO\<close> stands for
  \<^verbatim>\<open>new Date(ms).toISOString()\<close>.
\<close>

definition managerTask :: "nat \<Rightarrow> (nat \<Rightarrow> string) \<Rightarrow> User \<Rightarrow> Invoice \<Rightarrow> Task" where
  "managerTask now toISO manager updatedInvoice =
     \<lparr>task_id = ''task-mgr-'' @ inv_id updatedInvoice,
      title = ''Upload to Beam: '' @ referenceName updatedInvoice,
      description = ''The invoice '' @ referenceName updatedInvoice
        @ '' has been processed by the agent. Please upload the final deliverable to Beam Dynamics and confirm in the Studio Invoice tab.'',
      assigneeId = user_id manager,
      task_status = TODO,
      priority = HIGH,
      task_type = INVOICE_PROCESSING,
      tags = Some [''Manager Action'', ''Upload'', ''Invoice''],
      dueDate = toISO (now + 86400000),
      createdAt = now,
      completedAt = None,
      task_notes = None,
      attachments = Some (case finalCsvFile updatedInvoice of
                            None \<Rightarrow> []
                          | Some f \<Rightarrow> [\<lparr>att_name = file_name f, att_url = Some ''#'',
                                         att_type = csv\<rparr>]),
      isEscalated = None,
      inventoryFileId = None,
      inventoryItemIds = None\<rparr>"

text \<open>
  \<^verbatim>\<open>handleUpdateInvoice\<close>: the invoice write, the sync of the companion task, the
  manager-review task on the edge into \<^verbatim>\<open>COMPLETED\<close>, the confirmation on
  \<^verbatim>\<open>UPLOADED\<close>. \<^verbatim>\<open>oldInvoice?.status\<close> is \<^verbatim>\<open>undefined\<close> when the invoice is not in
  the collection, and \<^verbatim>\<open>undefined !== 'COMPLETED'\<close> holds.
\<close>

definition handleUpdateInvoice ::
  "nat \<Rightarrow> (nat \<Rightarrow> string) \<Rightarrow> Invoice list \<Rightarrow> Task list \<Rightarrow> User list \<Rightarrow> Invoice
     \<Rightarrow> Command list" where
  "handleUpdateInvoice now toISO invoices tasks users updatedInvoice =
     (let oldInvoice = find (\<lambda>i. inv_id i = inv_id updatedInvoice) invoices;
          linkedTask = find (\<lambda>t. task_id t = ''task-'' @ inv_id updatedInvoice) tasks
      in [SaveInvoice updatedInvoice]
         @ (case linkedTask of
              None \<Rightarrow> []
            | Some lt \<Rightarrow>
                [UpdateTask (lt\<lparr>
                   assigneeId := orElse (inv_assigneeId updatedInvoice) (assigneeId lt),
                   dueDate := orElse (inv_dueDate updatedInvoice) (dueDate lt),
                   task_status :=
                     (if inv_status updatedInvoice = V_COMPLETED
                         \<or> inv_status updatedInvoice = V_UPLOADED
                      then DONE else task_status lt)\<rparr>)])
         @ (if map_option inv_status oldInvoice \<noteq> Some V_COMPLETED
               \<and> inv_status updatedInvoice = V_COMPLETED
            then (case find (\<lambda>u. role u = MANAGER) users of
                    None \<Rightarrow> []
                  | Some manager \<Rightarrow> [AddTask (managerTask now toISO manager updatedInvoice)])
            else [])
         @ (if inv_status updatedInvoice = V_UPLOADED
            then (case find (\<lambda>t. task_id t = ''task-mgr-'' @ inv_id updatedInvoice) tasks of
                    None \<Rightarrow> []
                  | Some mgrTask \<Rightarrow>
                      [UpdateTask (mgrTask\<lparr>task_status := DONE, completedAt := Some now\<rparr>)])
            else []))"

section \<open>The storage tables\<close>

text \<open>
  \<^verbatim>\<open>storageService\<close> sends each command to a table keyed by \<^verbatim>\<open>id\<close>:
  \<^verbatim>\<open>updateTask\<close>, \<^verbatim>\<open>saveInvoice\<close> and \<^verbatim>\<open>saveEscalation\<close> are an \<^verbatim>\<open>upsert\<close>,
  \<^verbatim>\<open>addTask\<close> is an \<^verbatim>\<open>insert\<close> (it does nothing when the key is taken),
  \<^verbatim>\<open>deleteTask\<close> and \<^verbatim>\<open>deleteInvoice\<close> are a \<^verbatim>\<open>delete().eq('id', id)\<close>. The
  subscriptions hand the tables back to \<^verbatim>\<open>App\<close> as its next collections.
  A row is kept here as it was written. The mappers of \<^verbatim>\<open>storageService\<close> change
  some fields on the way (\<^verbatim>\<open>assigneeName\<close> of an invoice is not stored; missing
  \<^verbatim>\<open>tags\<close>, \<^verbatim>\<open>notes\<close> and \<^verbatim>\<open>attachments\<close> of a task are read back as empty
  lists); ids and statuses, the fields the results below depend on, come back unchanged.
\<close>

record Store =
  st_tasks :: "Task list"
  st_invoices :: "Invoice list"
  st_escalations :: "Escalation list"

definition upsertBy :: "('a \<Rightarrow> string) \<Rightarrow> 'a \<Rightarrow> 'a list \<Rightarrow> 'a list" where
  "upsertBy key x xs =
     (if list_ex (\<lambda>y. key y = key x) xs
      then map (\<lambda>y. if key y = key x then x else y) xs
      else xs @ [x])"

definition insertBy :: "('a \<Rightarrow> string) \<Rightarrow> 'a \<Rightarrow> 'a list \<Rightarrow> 'a list" where
  "insertBy key x xs = (if list_ex (\<lambda>y. key y = key x) xs then xs else xs @ [x])"

fun applyCommand :: "Command \<Rightarrow> Store \<Rightarrow> Store" where
  "applyCommand (AddTask t) s = s\<lparr>st_tasks := insertBy task_id t (st_tasks s)\<rparr>"
| "applyCommand (UpdateTask t) s = s\<lparr>st_tasks := upsertBy task_id t (st_tasks s)\<rparr>"
| "applyCommand (DeleteTask i) s = s\<lparr>st_tasks := filter (\<lambda>t. task_id t \<noteq> i) (st_tasks s)\<rparr>"
| "applyCommand (SaveInvoice v) s = s\<lparr>st_invoices := upsertBy inv_id v (st_invoices s)\<rparr>"
| "applyCommand (DeleteInvoice i) s =
     s\<lparr>st_invoices := filter (\<lambda>v. inv_id v \<noteq> i) (st_invoices s)\<rparr>"
| "applyCommand (SaveEscalation e) s =
     s\<lparr>st_escalations := upsertBy esc_id e (st_escalations s)\<rparr>"

definition applyCommands :: "Command list \<Rightarrow> Store \<Rightarrow> Store" where
  "applyCommands cmds s = fold applyCommand cmds s"

section \<open>The task board (TaskBoard) and the tracker (DashboardTracker)\<close>

definition isAutomatedTask :: "TaskType \<Rightarrow> bool" where
  "isAutomatedTask ty = (ty = AUGMENTING \<or> ty = QA)"

definition canEditTask :: "User \<Rightarrow> Task \<Rightarrow> bool" where
  "canEditTask currentUser selectedTask =
     (role currentUser = MANAGER \<or> assigneeId selectedTask = user_id currentUser)"

text \<open>
  \<^verbatim>\<open>currentTaskEscalations\<close>, \<^verbatim>\<open>activeEscalations\<close> and
  \<^verbatim>\<open>hasActiveEscalations\<close> of the detail modal.
\<close>

definition hasActiveEscalations :: "Escalation list \<Rightarrow> Task \<Rightarrow> bool" where
  "hasActiveEscalations escalations selectedTask =
     (length (filter (\<lambda>e. esc_status e \<noteq> E_CLOSED)
                (filter (\<lambda>e. taskId e = task_id selectedTask) escalations)) > 0)"

text \<open>\<^verbatim>\<open>handleStatusChange\<close> of the task board.\<close>

definition handleStatusChange ::
  "User \<Rightarrow> nat \<Rightarrow> Task \<Rightarrow> TaskStatus \<Rightarrow> string option \<Rightarrow> Command list" where
  "handleStatusChange currentUser now task newStatus note =
     (let updatedTask = task\<lparr>task_status := newStatus\<rparr>
      in handleTaskUpdate
           (if truthy note
            then updatedTask\<lparr>task_notes :=
                   Some (\<lparr>note_id = showNat now, note_authorId = user_id currentUser,
                          note_authorName = user_name currentUser,
                          note_text = ''Status changed to '' @ taskStatusStr newStatus
                                      @ '': '' @ interp note,
                          note_timestamp = now\<rparr>
                         # (case task_notes task of None \<Rightarrow> [] | Some ns \<Rightarrow> ns))\<rparr>
            else updatedTask))"

text \<open>
  The controls of the detail modal that change a status: the status select (every
  \<^verbatim>\<open>TaskStatus\<close> is an option), the button \<^verbatim>\<open>Mark Complete\<close> and the button
  \<^verbatim>\<open>Start Working\<close>. A control that is disabled or not rendered gives \<open>None\<close>.
  The other controls of the modal (notes, tags, attachments, hold) never pass
  \<^verbatim>\<open>DONE\<close> and are left out.
\<close>

datatype TaskBoardControl = StatusSelect TaskStatus | MarkCompleteButton | StartWorkingButton

definition taskBoardControl ::
  "User \<Rightarrow> nat \<Rightarrow> Escalation list \<Rightarrow> Task \<Rightarrow> TaskBoardControl \<Rightarrow> Command list option" where
  "taskBoardControl currentUser now escalations selectedTask ctl =
     (case ctl of
        StatusSelect s \<Rightarrow>
          if \<not> canEditTask currentUser selectedTask
             \<or> (task_status selectedTask = DONE \<and> isAutomatedTask (task_type selectedTask))
          then None
          else Some (handleStatusChange currentUser now selectedTask s None)
      | MarkCompleteButton \<Rightarrow>
          if canEditTask currentUser selectedTask \<and> task_status selectedTask = IN_PROGRESS
             \<and> \<not> isAutomatedTask (task_type selectedTask)
             \<and> task_type selectedTask \<noteq> INVOICE_PROCESSING
             \<and> \<not> hasActiveEscalations escalations selectedTask
          then Some (handleStatusChange currentUser now selectedTask DONE None)
          else None
      | StartWorkingButton \<Rightarrow>
          if canEditTask currentUser selectedTask \<and> task_status selectedTask = TODO
          then Some (handleStatusChange currentUser now selectedTask IN_PROGRESS None)
          else None)"

text \<open>
  \<^verbatim>\<open>handleStatusChange\<close> of the tracker: the status select of a row writes the chosen
  status to every task of the row that does not have it yet.
\<close>

definition trackerHandleStatusChange :: "Task list \<Rightarrow> TaskStatus \<Rightarrow> Command list" where
  "trackerHandleStatusChange originalTasks newStatus =
     concat (map (\<lambda>task. if task_status task \<noteq> newStatus
                          then handleTaskUpdate (task\<lparr>task_status := newStatus\<rparr>)
                          else []) originalTasks)"

section \<open>The escalation dialogue (EscalationModal)\<close>

text \<open>
  The footer of the dialogue shows the button \<^verbatim>\<open>Mark Resolved & Close\<close> under
  \<^verbatim>\<open>currentUser.role === UserRole.AGENT && escalation.history.length > 1\<close>, and only
  while the thread is not closed. Both boards wire the button to
  \<^verbatim>\<open>handleCloseEscalation\<close>; without the button there is no call, shown as \<open>None\<close>.
\<close>

definition resolveCloseOffered :: "User \<Rightarrow> Escalation \<Rightarrow> bool" where
  "resolveCloseOffered currentUser escalation =
     (esc_status escalation \<noteq> E_CLOSED \<and> role currentUser = AGENT
      \<and> length (history escalation) > 1)"

definition onResolveClose ::
  "User \<Rightarrow> nat \<Rightarrow> Task list \<Rightarrow> Escalation \<Rightarrow> Command list option" where
  "onResolveClose currentUser now tasks escalation =
     (if resolveCloseOffered currentUser escalation
      then Some (handleCloseEscalation now tasks escalation)
      else None)"

section \<open>The invoice cards (InvoiceManager)\<close>

definition isFinalized :: "Invoice \<Rightarrow> bool" where
  "isFinalized invoice = (inv_status invoice = V_COMPLETED \<or> inv_status invoice = V_UPLOADED)"

text \<open>
  What a user can do on the card of an invoice: a manager picks an agent in the
  assignment select (with the start and due date of the card) or confirms the upload;
  an agent submits the final CSV file.
\<close>

datatype InvoiceAction =
    AssignAgent string string string
  | ConfirmUpload
  | SubmitComplete InvoiceFileMeta

text \<open>\<^verbatim>\<open>new Date().toISOString().split('T')[0]\<close>\<close>

definition today :: "(nat \<Rightarrow> string) \<Rightarrow> nat \<Rightarrow> string" where
  "today toISO now = takeWhile (\<lambda>c. c \<noteq> CHR ''T'') (toISO now)"

text \<open>
  The invoice a card passes to \<^verbatim>\<open>onUpdateInvoice\<close>, or \<open>None\<close> when the control is
  disabled or not rendered. A manager sees \<^verbatim>\<open>InvoiceAssignmentControl\<close>: the button
  \<^verbatim>\<open>Confirm Upload to Beam\<close> under \<^verbatim>\<open>invoice.status === 'COMPLETED'\<close>, the select
  disabled under \<^verbatim>\<open>isFinalized\<close> and without effect on the empty option. An agent sees
  only the invoices assigned to them, and the button \<^verbatim>\<open>Submit & Complete\<close> (enabled
  once a file is chosen) unless the invoice is completed or uploaded.
\<close>

definition invoiceCardAction ::
  "User \<Rightarrow> User list \<Rightarrow> nat \<Rightarrow> (nat \<Rightarrow> string) \<Rightarrow> Invoice \<Rightarrow> InvoiceAction \<Rightarrow> Invoice option" where
  "invoiceCardAction currentUser users now toISO invoice act =
     (if role currentUser = MANAGER
      then (case act of
              ConfirmUpload \<Rightarrow>
                if inv_status invoice = V_COMPLETED
                then Some (invoice\<lparr>inv_status := V_UPLOADED\<rparr>)
                else None
            | AssignAgent val sd dd \<Rightarrow>
                if isFinalized invoice \<or> val = [] then None
                else Some (invoice\<lparr>
                       inv_assigneeId := Some val,
                       assigneeName := map_option user_name (find (\<lambda>u. user_id u = val) users),
                       startDate := Some (if sd = [] then today toISO now else sd),
                       inv_dueDate := Some dd,
                       inv_status := V_ASSIGNED\<rparr>)
            | SubmitComplete f \<Rightarrow> None)
      else (case act of
              SubmitComplete f \<Rightarrow>
                if inv_assigneeId invoice = Some (user_id currentUser) \<and> \<not> isFinalized invoice
                then Some (invoice\<lparr>
                       inv_status := V_COMPLETED,
                       inv_completedAt := Some now,
                       finalCsvFile := Some (f\<lparr>file_type := csv\<rparr>)\<rparr>)
                else None
            | _ \<Rightarrow> None))"

text \<open>
  One user event on the card of an invoice: who acts, the user collection of that
  render, the time and the action.
\<close>

record CardEvent =
  ev_user :: User
  ev_users :: "User list"
  ev_now :: nat
  ev_action :: InvoiceAction

text \<open>
  The life of the invoice with id \<open>i\<close> under a sequence of card events: each event
  is served from the current tables, its commands are applied to the tables, and all
  commands issued are collected in order.
\<close>

fun invoiceLifetime ::
  "(nat \<Rightarrow> string) \<Rightarrow> string \<Rightarrow> Store \<Rightarrow> CardEvent list \<Rightarrow> Command list" where
  "invoiceLifetime toISO i s [] = []"
| "invoiceLifetime toISO i s (ev # evs) =
     (case find (\<lambda>v. inv_id v = i) (st_invoices s) of
        None \<Rightarrow> invoiceLifetime toISO i s evs
      | Some invoice \<Rightarrow>
          (case invoiceCardAction (ev_user ev) (ev_users ev) (ev_now ev) toISO invoice
                  (ev_action ev) of
             None \<Rightarrow> invoiceLifetime toISO i s evs
           | Some updatedInvoice \<Rightarrow>
               (let cmds = handleUpdateInvoice (ev_now ev) toISO (st_invoices s) (st_tasks s)
                             (ev_users ev) updatedInvoice
                in cmds @ invoiceLifetime toISO i (applyCommands cmds s) evs)))"

fun createsTask :: "string \<Rightarrow> Command \<Rightarrow> bool" where
  "createsTask i (AddTask t) = (task_id t = i)"
| "createsTask i _ = False"

section \<open>Rule 1 in the words of the specification, and a scenario\<close>

text \<open>
  The conditions of the auto-complete rule as the specification words them: the
  referenced inventory file resolves, the items whose id is among the task's
  \<^verbatim>\<open>inventoryItemIds\<close> are not empty, each of them satisfies the completion
  predicate, and no escalation that is not closed references the task.
\<close>

definition ruleOneConditions :: "InventoryFile list \<Rightarrow> Escalation list \<Rightarrow> Task \<Rightarrow> bool" where
  "ruleOneConditions inventories escalations T =
     ((\<exists>inventory \<in> set inventories.
         find (\<lambda>inv. Some (file_id inv) = inventoryFileId T) inventories = Some inventory
         \<and> (\<exists>item \<in> set (data inventory).
               item_id item \<in> set (case inventoryItemIds T of None \<Rightarrow> [] | Some ids \<Rightarrow> ids))
         \<and> (\<forall>item \<in> set (data inventory).
               item_id item \<in> set (case inventoryItemIds T of None \<Rightarrow> [] | Some ids \<Rightarrow> ids) \<longrightarrow>
                 (if task_type T = QA then item_status item = QA_COMPLETE
                  else item_status item \<in> {AUGMENTED, QA_COMPLETE})))
      \<and> \<not> (\<exists>e \<in> set escalations. taskId e = task_id T \<and> esc_status e \<noteq> E_CLOSED))"

text \<open>Scenario A of the specification: a QA task in progress on two finished items.\<close>

definition scenarioTask :: Task where
  "scenarioTask =
     \<lparr>task_id = ''t1'', title = ''QA batch'', description = ''check the batch'',
      assigneeId = ''a1'', task_status = IN_PROGRESS, priority = MEDIUM, task_type = QA,
      tags = None, dueDate = ''2026-01-31'', createdAt = 5, completedAt = None,
      task_notes = None, attachments = None, isEscalated = None,
      inventoryFileId = Some ''f1'', inventoryItemIds = Some [''i1'', ''i2'']\<rparr>"

definition scenarioInventory :: InventoryFile where
  "scenarioInventory =
     \<lparr>file_id = ''f1'', fileName = ''batch.csv'', uploadDate = 1, rowCount = 3,
      data = [\<lparr>item_id = ''i1'', item_status = QA_COMPLETE, item_assigneeId = Some ''a1''\<rparr>,
              \<lparr>item_id = ''i2'', item_status = QA_COMPLETE, item_assigneeId = Some ''a1''\<rparr>,
              \<lparr>item_id = ''i3'', item_status = I_PENDING, item_assigneeId = None\<rparr>]\<rparr>"

declare showNat.simps [simp del]

section \<open>Scenario data\<close>

definition exManager :: User where
  "exManager = \<lparr>user_id = ''m1'', username = ''mia'', user_name = ''Mia'', role = MANAGER\<rparr>"

definition exAgent :: User where
  "exAgent = \<lparr>user_id = ''a1'', username = ''ann'', user_name = ''Ann'', role = AGENT\<rparr>"

text \<open>
  The escalation that \<^verbatim>\<open>handleEscalateTask\<close> saves when the agent \<open>exAgent\<close> escalates
  \<open>scenarioTask\<close> at time 1000, the same thread after a reply of the manager at time
  2000, and a second open thread on the same task.
\<close>

definition raisedEscalation :: Escalation where
  "raisedEscalation =
     \<lparr>esc_id = ''esc-1000'', taskId = ''t1'', taskTitle = ''QA batch'', agentId = ''a1'',
      agentName = ''Ann'', link = None,
      history = [\<lparr>msg_id = ''msg-1000'', authorId = ''a1'', authorName = ''Ann'',
                  msg_role = AGENT, msg_text = ''item i2 is missing'', msg_timestamp = 1000\<rparr>],
      esc_status = E_PENDING, esc_createdAt = 1000, updatedAt = 1000\<rparr>"

definition repliedEscalation :: Escalation where
  "repliedEscalation =
     raisedEscalation\<lparr>
       history := history raisedEscalation
                  @ [\<lparr>msg_id = ''msg-2000'', authorId = ''m1'', authorName = ''Mia'',
                      msg_role = MANAGER, msg_text = ''use the new sheet'',
                      msg_timestamp = 2000\<rparr>],
       esc_status := E_RESPONDED, updatedAt := 2000\<rparr>"

definition secondEscalation :: Escalation where
  "secondEscalation = raisedEscalation\<lparr>esc_id := ''esc-1500'', esc_createdAt := 1500,
                                        updatedAt := 1500\<rparr>"

text \<open>An invoice assigned to \<open>exAgent\<close>, and the same invoice submitted as complete.\<close>

definition exInvoice :: Invoice where
  "exInvoice =
     \<lparr>inv_id = ''inv1'', referenceName = ''Studio A'', inv_status = V_ASSIGNED,
      pdfFile = \<lparr>file_name = ''a.pdf'', file_size = ''0.10 MB'', file_type = pdf,
                 file_content = None\<rparr>,
      csvFile = None, finalCsvFile = None, inv_assigneeId = Some ''a1'',
      assigneeName = Some ''Ann'', startDate = Some ''2026-01-01'',
      inv_dueDate = Some ''2026-01-31'', isPreProcessed = False, inv_createdAt = 10,
      inv_completedAt = None\<rparr>"

definition exFinalCsv :: InvoiceFileMeta where
  "exFinalCsv = \<lparr>file_name = ''final.csv'', file_size = ''0.01 MB'', file_type = csv,
                  file_content = Some ''a,b''\<rparr>"

definition exCompletedInvoice :: Invoice where
  "exCompletedInvoice = exInvoice\<lparr>inv_status := V_COMPLETED, inv_completedAt := Some 3000,
                                   finalCsvFile := Some exFinalCsv\<rparr>"

definition exCompanionTask :: Task where
  "exCompanionTask =
     \<lparr>task_id = ''task-inv1'', title = ''Process Invoice: Studio A'', description = ''invoice'',
      assigneeId = ''a1'', task_status = IN_PROGRESS, priority = MEDIUM,
      task_type = INVOICE_PROCESSING, tags = Some [''Invoice'', ''Administrative''],
      dueDate = ''2026-01-31'', createdAt = 10, completedAt = None, task_notes = None,
      attachments = Some [\<lparr>att_name = ''a.pdf'', att_url = Some ''#'', att_type = pdf\<rparr>],
      isEscalated = None, inventoryFileId = None, inventoryItemIds = None\<rparr>"

text \<open>A stand-in for \<^verbatim>\<open>toISOString\<close> in the scenarios.\<close>

definition exISO :: "nat \<Rightarrow> string" where
  "exISO ms = showNat ms @ ''T''"

text \<open>A further reply of the manager at time 2500, on the thread already answered.\<close>

definition followUpEscalation :: Escalation where
  "followUpEscalation =
     repliedEscalation\<lparr>
       history := history repliedEscalation
                  @ [\<lparr>msg_id = ''msg-2500'', authorId = ''m1'', authorName = ''Mia'',
                      msg_role = MANAGER, msg_text = ''and archive the old one'',
                      msg_timestamp = 2500\<rparr>],
       esc_status := E_RESPONDED, updatedAt := 2500\<rparr>"

text \<open>
  The tables when \<open>scenarioTask\<close> carries two open threads: the answered one and a
  second one.
\<close>

definition twoThreads :: Store where
  "twoThreads =
     \<lparr>st_tasks = [scenarioTask\<lparr>isEscalated := Some True\<rparr>], st_invoices = [],
      st_escalations = [repliedEscalation, secondEscalation]\<rparr>"

text \<open>
  The tables with the assigned invoice and its companion task, and three card events:
  the agent submits the final file, the manager confirms the upload, the agent tries to
  submit once more.
\<close>

definition exStore :: Store where
  "exStore = \<lparr>st_tasks = [exCompanionTask], st_invoices = [exInvoice], st_escalations = []\<rparr>"

definition exEvents :: "CardEvent list" where
  "exEvents =
     [\<lparr>ev_user = exAgent, ev_users = [exAgent, exManager], ev_now = 3000,
       ev_action = SubmitComplete exFinalCsv\<rparr>,
      \<lparr>ev_user = exManager, ev_users = [exAgent, exManager], ev_now = 4000,
       ev_action = ConfirmUpload\<rparr>,
      \<lparr>ev_user = exAgent, ev_users = [exAgent, exManager], ev_now = 5000,
       ev_action = SubmitComplete exFinalCsv\<rparr>]"

text \<open>The tables with \<open>scenarioTask\<close> alone.\<close>

definition scenarioStore :: Store where
  "scenarioStore = \<lparr>st_tasks = [scenarioTask], st_invoices = [], st_escalations = []\<rparr>"

section \<open>Verification\<close>

subsection \<open>Automated completion\<close>

lemma autoCompleteTask_cases:
  assumes "task_status T \<noteq> DONE" "truthy (inventoryFileId T)"
    "inventoryItemIds T = Some ids" "ids \<noteq> []"
  shows "autoCompleteTask now inventories escalations T =
          (if ruleOneConditions inventories escalations T
           then [UpdateTask (T\<lparr>task_status := DONE, completedAt := Some now\<rparr>)] else [])"
  using assms
  by (auto simp: autoCompleteTask_def ruleOneConditions_def hasActiveEscalation_def list_ex_iff
      relevantItems_def itemComplete_def list_all_iff filter_empty_conv
      split: option.splits dest: find_Some_iff[THEN iffD1])

lemma autoCompleteTask_writes:
  "c \<in> set (autoCompleteTask now inventories escalations t) \<Longrightarrow>
     c = UpdateTask (t\<lparr>task_status := DONE, completedAt := Some now\<rparr>)"
  by (auto simp: autoCompleteTask_def split: if_splits option.splits)

lemma autoCompleteTask_same_fields:
  assumes "t\<lparr>task_status := DONE, completedAt := Some now\<rparr> = T\<lparr>task_status := DONE, completedAt := Some now\<rparr>"
    and "task_status T \<noteq> DONE"
    and "autoCompleteTask now inventories escalations t \<noteq> []"
  shows "autoCompleteTask now inventories escalations T \<noteq> []"
proof -
  from assms(1) have eqs: "task_id t = task_id T" "task_type t = task_type T"
    "inventoryFileId t = inventoryFileId T" "inventoryItemIds t = inventoryItemIds T"
    by (cases t, cases T, simp)+
  have r: "relevantItems t = relevantItems T"
    by (simp add: relevantItems_def eqs fun_eq_iff)
  have i: "itemComplete t = itemComplete T"
    by (simp add: itemComplete_def eqs fun_eq_iff)
  have h: "hasActiveEscalation escalations t = hasActiveEscalation escalations T"
    by (simp add: hasActiveEscalation_def eqs)
  from assms(3) assms(2) show ?thesis
    unfolding autoCompleteTask_def r i h eqs
    by (auto split: if_splits option.splits)
qed

lemma filter_writes_concat:
  assumes "distinct (map task_id tasks)" "T \<in> set tasks"
  shows "filter (writesTaskId (task_id T))
           (concat (map (autoCompleteTask now inventories escalations) tasks))
         = autoCompleteTask now inventories escalations T"
  using assms
proof (induction tasks)
  case Nil
  then show ?case by simp
next
  case (Cons t ts)
  have own: "filter (writesTaskId (task_id x)) (autoCompleteTask now inventories escalations x)
             = autoCompleteTask now inventories escalations x" for x
    by (auto simp: filter_id_conv writesTaskId_def dest!: autoCompleteTask_writes)
  have other: "task_id x \<noteq> task_id y \<Longrightarrow>
      filter (writesTaskId (task_id x)) (autoCompleteTask now inventories escalations y) = []" for x y
    by (auto simp: filter_empty_conv writesTaskId_def dest!: autoCompleteTask_writes)
  have rest: "\<forall>y \<in> set ys. task_id y \<noteq> task_id x \<Longrightarrow>
      filter (writesTaskId (task_id x))
        (concat (map (autoCompleteTask now inventories escalations) ys)) = []" for x ys
    by (induction ys) (auto simp: other)
  show ?case
  proof (cases "T = t")
    case True
    from Cons.prems have "task_id t \<notin> task_id ` set ts" by simp
    with True have "\<forall>y \<in> set ts. task_id y \<noteq> task_id T" by (metis imageI)
    with True show ?thesis by (simp add: own rest)
  next
    case False
    with Cons.prems have "T \<in> set ts" "task_id t \<noteq> task_id T" "distinct (map task_id ts)"
      by auto
    with Cons.IH show ?thesis by (simp add: other[of T t])
  qed
qed

text \<open>
  C1. For a task \<open>T\<close> of the collection that is not \<^verbatim>\<open>DONE\<close> and has a non-empty
  \<^verbatim>\<open>inventoryFileId\<close> and non-empty \<^verbatim>\<open>inventoryItemIds\<close>, one pass of the automation
  writes \<open>T\<close> with status \<^verbatim>\<open>DONE\<close> and \<^verbatim>\<open>completedAt = now\<close> if and only if the
  inventory file resolves, the gathered items are not empty, no escalation that is not
  closed references \<open>T\<close>, and every gathered item satisfies the completion predicate.
  Otherwise the pass writes nothing for \<open>T\<close>: with unique task ids, the commands of
  the pass that touch the id of \<open>T\<close> are exactly those of the rule on \<open>T\<close>.
\<close>

theorem auto_complete_rule:
  assumes "T \<in> set tasks" and "task_status T \<noteq> DONE"
    and "inventoryFileId T = Some fid" and "fid \<noteq> []"
    and "inventoryItemIds T = Some ids" and "ids \<noteq> []"
  shows "autoCompleteTask now inventories escalations T =
           (if ruleOneConditions inventories escalations T
            then [UpdateTask (T\<lparr>task_status := DONE, completedAt := Some now\<rparr>)] else [])
         \<and> (UpdateTask (T\<lparr>task_status := DONE, completedAt := Some now\<rparr>)
               \<in> set (autoCompleteEffect now tasks inventories escalations)
             \<longleftrightarrow> ruleOneConditions inventories escalations T)
         \<and> (distinct (map task_id tasks) \<longrightarrow>
              filter (writesTaskId (task_id T)) (autoCompleteEffect now tasks inventories escalations)
              = autoCompleteTask now inventories escalations T)"
proof (intro conjI impI)
  have tr: "truthy (inventoryFileId T)" using assms by simp
  show one: "autoCompleteTask now inventories escalations T =
           (if ruleOneConditions inventories escalations T
            then [UpdateTask (T\<lparr>task_status := DONE, completedAt := Some now\<rparr>)] else [])"
    by (rule autoCompleteTask_cases[OF assms(2) tr assms(5) assms(6)])
  have ne: "tasks \<noteq> []" using assms(1) by auto
  have inv_ne: "inventories = [] \<Longrightarrow> \<not> ruleOneConditions inventories escalations T"
    by (simp add: ruleOneConditions_def)
  show "UpdateTask (T\<lparr>task_status := DONE, completedAt := Some now\<rparr>)
               \<in> set (autoCompleteEffect now tasks inventories escalations)
             \<longleftrightarrow> ruleOneConditions inventories escalations T"
  proof
    assume m: "UpdateTask (T\<lparr>task_status := DONE, completedAt := Some now\<rparr>)
               \<in> set (autoCompleteEffect now tasks inventories escalations)"
    then obtain t where t: "t \<in> set tasks"
      "UpdateTask (T\<lparr>task_status := DONE, completedAt := Some now\<rparr>)
         \<in> set (autoCompleteTask now inventories escalations t)"
      by (auto simp: autoCompleteEffect_def split: if_splits)
    from autoCompleteTask_writes[OF t(2)]
    have same: "t\<lparr>task_status := DONE, completedAt := Some now\<rparr>
          = T\<lparr>task_status := DONE, completedAt := Some now\<rparr>" by simp
    from t(2) have fires: "autoCompleteTask now inventories escalations t \<noteq> []" by auto
    have "autoCompleteTask now inventories escalations T \<noteq> []"
      by (rule autoCompleteTask_same_fields[OF same assms(2) fires])
    with one show "ruleOneConditions inventories escalations T" by (auto split: if_splits)
  next
    assume c: "ruleOneConditions inventories escalations T"
    with inv_ne have "inventories \<noteq> []" by auto
    with c one ne assms(1) show "UpdateTask (T\<lparr>task_status := DONE, completedAt := Some now\<rparr>)
               \<in> set (autoCompleteEffect now tasks inventories escalations)"
      by (auto simp: autoCompleteEffect_def intro!: bexI[of _ T])
  qed
  assume d: "distinct (map task_id tasks)"
  show "filter (writesTaskId (task_id T)) (autoCompleteEffect now tasks inventories escalations)
              = autoCompleteTask now inventories escalations T"
  proof (cases "inventories = []")
    case True
    with inv_ne one show ?thesis by (simp add: autoCompleteEffect_def)
  next
    case False
    with ne show ?thesis
      by (simp add: autoCompleteEffect_def filter_writes_concat[OF d assms(1)])
  qed
qed

theorem auto_complete_rule_witness:
  "scenarioTask \<in> set [scenarioTask] \<and> task_status scenarioTask \<noteq> DONE
   \<and> inventoryFileId scenarioTask = Some ''f1'' \<and> ''f1'' \<noteq> []
   \<and> inventoryItemIds scenarioTask = Some [''i1'', ''i2''] \<and> [''i1'', ''i2''] \<noteq> []
   \<and> ruleOneConditions [scenarioInventory] [] scenarioTask
   \<and> distinct (map task_id [scenarioTask])
   \<and> autoCompleteEffect 1000 [scenarioTask] [scenarioInventory] []
       = [UpdateTask (scenarioTask\<lparr>task_status := DONE, completedAt := Some 1000\<rparr>)]"
proof -
  have c: "ruleOneConditions [scenarioInventory] [] scenarioTask"
    by (simp add: ruleOneConditions_def scenarioInventory_def scenarioTask_def)
  have e: "autoCompleteEffect 1000 [scenarioTask] [scenarioInventory] []
           = autoCompleteTask 1000 [scenarioInventory] [] scenarioTask"
    by (simp add: autoCompleteEffect_def)
  from auto_complete_rule[of scenarioTask "[scenarioTask]" "''f1''" "[''i1'', ''i2'']" 1000
      "[scenarioInventory]" "[]"] c e
  show ?thesis by (simp add: scenarioTask_def)
qed

subsection \<open>The baseline cycle\<close>

text \<open>
  C6. While the effect is in its first-load state it emits nothing: no notification and
  no alert, for any collections, any viewer and any user collection. The cycle in which
  a non-empty snapshot arrives (tasks or invoices present) stores the snapshot as the
  baseline and leaves the first-load state.
\<close>

theorem baseline_cycle_silent:
  assumes "isFirstLoad refs"
  shows "snd (notificationEffect refs tasks invoices escalations currentUser users) = []
         \<and> (tasks \<noteq> [] \<or> invoices \<noteq> [] \<longrightarrow>
              fst (notificationEffect refs tasks invoices escalations currentUser users)
              = \<lparr>prevTasksRef = tasks, prevInvoicesRef = invoices,
                 prevEscalationsRef = escalations, isFirstLoad = False\<rparr>)"
  using assms by (cases refs) (simp add: notificationEffect_def)

theorem baseline_cycle_silent_witness:
  "isFirstLoad \<lparr>prevTasksRef = [], prevInvoicesRef = [], prevEscalationsRef = [],
                isFirstLoad = True\<rparr>
   \<and> [scenarioTask] \<noteq> []
   \<and> notificationEffect
        \<lparr>prevTasksRef = [], prevInvoicesRef = [], prevEscalationsRef = [], isFirstLoad = True\<rparr>
        [scenarioTask] [exInvoice] [raisedEscalation] (Some exManager) [exManager, exAgent]
      = (\<lparr>prevTasksRef = [scenarioTask], prevInvoicesRef = [exInvoice],
          prevEscalationsRef = [raisedEscalation], isFirstLoad = False\<rparr>, [])"
  using baseline_cycle_silent[of
      "\<lparr>prevTasksRef = [], prevInvoicesRef = [], prevEscalationsRef = [], isFirstLoad = True\<rparr>"
      "[scenarioTask]" "[exInvoice]" "[raisedEscalation]" "Some exManager" "[exManager, exAgent]"]
  by (simp add: prod_eq_iff)

subsection \<open>Invoice updates\<close>

text \<open>
  C10. When an invoice update crosses the edge into \<^verbatim>\<open>COMPLETED\<close> and no user has the
  role \<^verbatim>\<open>MANAGER\<close>, the handler issues the invoice write and, if the companion task
  exists, its sync (forced to \<^verbatim>\<open>DONE\<close>), and nothing else: no manager-review task is
  created. The handler has no failing branch.
\<close>

theorem no_manager_skips_review_task:
  assumes "\<forall>u \<in> set users. role u \<noteq> MANAGER"
    and "map_option inv_status (find (\<lambda>i. inv_id i = inv_id updatedInvoice) invoices)
         \<noteq> Some V_COMPLETED"
    and "inv_status updatedInvoice = V_COMPLETED"
  shows "handleUpdateInvoice now toISO invoices tasks users updatedInvoice
         = SaveInvoice updatedInvoice
           # (case find (\<lambda>t. task_id t = ''task-'' @ inv_id updatedInvoice) tasks of
                None \<Rightarrow> []
              | Some lt \<Rightarrow>
                  [UpdateTask (lt\<lparr>
                     assigneeId := orElse (inv_assigneeId updatedInvoice) (assigneeId lt),
                     dueDate := orElse (inv_dueDate updatedInvoice) (dueDate lt),
                     task_status := DONE\<rparr>)])
         \<and> \<not> list_ex (createsTask (''task-mgr-'' @ inv_id updatedInvoice))
               (handleUpdateInvoice now toISO invoices tasks users updatedInvoice)"
proof -
  from assms(1) have nomgr: "find (\<lambda>u. role u = MANAGER) users = None"
    by (simp add: find_None_iff)
  show ?thesis
    using assms(2,3) nomgr
    by (simp add: handleUpdateInvoice_def Let_def split: option.splits)
qed

theorem no_manager_skips_review_task_witness:
  "\<not> list_ex (\<lambda>u. role u = MANAGER) [exAgent]
   \<and> map_option inv_status (find (\<lambda>i. inv_id i = inv_id exCompletedInvoice) [exInvoice])
       \<noteq> Some V_COMPLETED
   \<and> inv_status exCompletedInvoice = V_COMPLETED
   \<and> handleUpdateInvoice 3000 exISO [exInvoice] [exCompanionTask] [exAgent] exCompletedInvoice
       = [SaveInvoice exCompletedInvoice, UpdateTask (exCompanionTask\<lparr>task_status := DONE\<rparr>)]"
  using no_manager_skips_review_task[of "[exAgent]" exCompletedInvoice "[exInvoice]" 3000 exISO
      "[exCompanionTask]"]
  by (simp add: exAgent_def exCompletedInvoice_def exInvoice_def exCompanionTask_def)

subsection \<open>Escalation deltas\<close>

lemma raised_by_agent:
  "handleEscalateTask (Some exAgent) 1000 scenarioTask ''item i2 is missing'' None
   = [SaveEscalation raisedEscalation, UpdateTask (scenarioTask\<lparr>isEscalated := Some True\<rparr>)]"
  by (simp add: handleEscalateTask_def exAgent_def scenarioTask_def raisedEscalation_def
      showNat.simps digit_def)

lemma replied_by_manager:
  "handleEscalationReply (Some exManager) 2000 raisedEscalation ''use the new sheet''
   = [SaveEscalation repliedEscalation]"
  by (simp add: handleEscalationReply_def exManager_def repliedEscalation_def
      raisedEscalation_def showNat.simps digit_def)

text \<open>
  C8. When an agent raises an escalation, a manager who views the delta should receive
  the notification and an alert-channel message. The code gives the manager the
  notification, but in the session of a manager \<^verbatim>\<open>sendToSlack\<close> is not called, although
  that browser holds the webhook. The call is made in the session of the raising agent,
  whose browser holds no webhook (the integrations card is not shown to an agent), and
  there it returns without a request. No alert-channel message is forwarded. Raising the
  escalation does write the task with \<^verbatim>\<open>isEscalated = true\<close>.
\<close>

theorem agent_escalation_forwards_no_alert:
  "role exAgent = AGENT \<and> role exManager = MANAGER
   \<and> handleEscalateTask (Some exAgent) 1000 scenarioTask ''item i2 is missing'' None
       = [SaveEscalation raisedEscalation, UpdateTask (scenarioTask\<lparr>isEscalated := Some True\<rparr>)]
   \<and> snd (notificationEffect
             \<lparr>prevTasksRef = [scenarioTask], prevInvoicesRef = [],
              prevEscalationsRef = [], isFirstLoad = False\<rparr>
             [scenarioTask\<lparr>isEscalated := Some True\<rparr>] [] [raisedEscalation]
             (Some exManager) [exManager, exAgent])
       = [AddNotification ''Escalation Raised''
            (alarmIcon @ '' Escalation Raised: '' @ dq @ ''QA batch'' @ dq @ '' by Ann.'')]
   \<and> integrationsCardShown exManager
   \<and> slackRequests (Some ''https://hooks.slack.com/services/T0/B0/x'')
        (snd (notificationEffect
                \<lparr>prevTasksRef = [scenarioTask], prevInvoicesRef = [],
                 prevEscalationsRef = [], isFirstLoad = False\<rparr>
                [scenarioTask\<lparr>isEscalated := Some True\<rparr>] [] [raisedEscalation]
                (Some exManager) [exManager, exAgent]))
       = []
   \<and> snd (notificationEffect
             \<lparr>prevTasksRef = [scenarioTask], prevInvoicesRef = [],
              prevEscalationsRef = [], isFirstLoad = False\<rparr>
             [scenarioTask\<lparr>isEscalated := Some True\<rparr>] [] [raisedEscalation]
             (Some exAgent) [exManager, exAgent])
       = [AddNotification ''Escalation Raised''
            (alarmIcon @ '' Escalation Raised: '' @ dq @ ''QA batch'' @ dq @ '' by Ann.''),
          SendToSlack
            (alarmIcon @ '' Escalation Raised: '' @ dq @ ''QA batch'' @ dq @ '' by Ann.'')]
   \<and> \<not> integrationsCardShown exAgent
   \<and> slackRequests None
        (snd (notificationEffect
                \<lparr>prevTasksRef = [scenarioTask], prevInvoicesRef = [],
                 prevEscalationsRef = [], isFirstLoad = False\<rparr>
                [scenarioTask\<lparr>isEscalated := Some True\<rparr>] [] [raisedEscalation]
                (Some exAgent) [exManager, exAgent]))
       = []"
proof -
  have m: "snd (notificationEffect
             \<lparr>prevTasksRef = [scenarioTask], prevInvoicesRef = [],
              prevEscalationsRef = [], isFirstLoad = False\<rparr>
             [scenarioTask\<lparr>isEscalated := Some True\<rparr>] [] [raisedEscalation]
             (Some exManager) [exManager, exAgent])
       = [AddNotification ''Escalation Raised''
            (alarmIcon @ '' Escalation Raised: '' @ dq @ ''QA batch'' @ dq @ '' by Ann.'')]"
    by (simp add: notificationEffect_def taskDelta_def escalationDelta_def exManager_def
        scenarioTask_def raisedEscalation_def Let_def)
  have a: "snd (notificationEffect
             \<lparr>prevTasksRef = [scenarioTask], prevInvoicesRef = [],
              prevEscalationsRef = [], isFirstLoad = False\<rparr>
             [scenarioTask\<lparr>isEscalated := Some True\<rparr>] [] [raisedEscalation]
             (Some exAgent) [exManager, exAgent])
       = [AddNotification ''Escalation Raised''
            (alarmIcon @ '' Escalation Raised: '' @ dq @ ''QA batch'' @ dq @ '' by Ann.''),
          SendToSlack
            (alarmIcon @ '' Escalation Raised: '' @ dq @ ''QA batch'' @ dq @ '' by Ann.'')]"
    by (simp add: notificationEffect_def taskDelta_def escalationDelta_def exAgent_def
        scenarioTask_def raisedEscalation_def Let_def)
  have r: "role exAgent = AGENT" "role exManager = MANAGER"
    "integrationsCardShown exManager" "\<not> integrationsCardShown exAgent"
    by (simp_all add: exAgent_def exManager_def integrationsCardShown_def)
  show ?thesis
    unfolding m a using r raised_by_agent
    by (simp add: slackRequests_def sendToSlack_def)
qed

theorem agent_escalation_forwards_no_alert_witness:
  "list_ex isNotification
     (snd (notificationEffect
             \<lparr>prevTasksRef = [scenarioTask], prevInvoicesRef = [],
              prevEscalationsRef = [], isFirstLoad = False\<rparr>
             [scenarioTask\<lparr>isEscalated := Some True\<rparr>] [] [raisedEscalation]
             (Some exManager) [exManager, exAgent]))
   \<and> \<not> list_ex isSlack
         (snd (notificationEffect
                 \<lparr>prevTasksRef = [scenarioTask], prevInvoicesRef = [],
                  prevEscalationsRef = [], isFirstLoad = False\<rparr>
                 [scenarioTask\<lparr>isEscalated := Some True\<rparr>] [] [raisedEscalation]
                 (Some exManager) [exManager, exAgent]))
   \<and> slackRequests None
        (snd (notificationEffect
                \<lparr>prevTasksRef = [scenarioTask], prevInvoicesRef = [],
                 prevEscalationsRef = [], isFirstLoad = False\<rparr>
                [scenarioTask\<lparr>isEscalated := Some True\<rparr>] [] [raisedEscalation]
                (Some exAgent) [exManager, exAgent]))
       = []"
proof -
  note m = agent_escalation_forwards_no_alert
    [THEN conjunct2, THEN conjunct2, THEN conjunct2, THEN conjunct1]
  note n = agent_escalation_forwards_no_alert
    [THEN conjunct2, THEN conjunct2, THEN conjunct2, THEN conjunct2, THEN conjunct2,
     THEN conjunct2, THEN conjunct2, THEN conjunct2]
  have "list_ex isNotification
     (snd (notificationEffect
             \<lparr>prevTasksRef = [scenarioTask], prevInvoicesRef = [],
              prevEscalationsRef = [], isFirstLoad = False\<rparr>
             [scenarioTask\<lparr>isEscalated := Some True\<rparr>] [] [raisedEscalation]
             (Some exManager) [exManager, exAgent]))"
    unfolding m by simp
  moreover have "\<not> list_ex isSlack
         (snd (notificationEffect
                 \<lparr>prevTasksRef = [scenarioTask], prevInvoicesRef = [],
                  prevEscalationsRef = [], isFirstLoad = False\<rparr>
                 [scenarioTask\<lparr>isEscalated := Some True\<rparr>] [] [raisedEscalation]
                 (Some exManager) [exManager, exAgent]))"
    unfolding m by simp
  ultimately show ?thesis using n by (intro conjI)
qed

text \<open>
  C9, as stated, fails: the reply of the manager appends a message and moves the thread
  from \<^verbatim>\<open>PENDING\<close> to \<^verbatim>\<open>RESPONDED\<close>; the agent, who is not the author of the last
  message, receives \<^verbatim>\<open>Escalation Update\<close> and no \<^verbatim>\<open>New Message\<close>.
\<close>

theorem new_message_with_status_change_counterexample:
  "handleEscalationReply (Some exManager) 2000 raisedEscalation ''use the new sheet''
     = [SaveEscalation repliedEscalation]
   \<and> find (\<lambda>e. esc_id e = esc_id repliedEscalation) [raisedEscalation] = Some raisedEscalation
   \<and> length (history repliedEscalation) > length (history raisedEscalation)
   \<and> agentId repliedEscalation = user_id exAgent
   \<and> authorId (last (history repliedEscalation)) \<noteq> user_id exAgent
   \<and> \<not> list_ex (hasTitle ''New Message'')
         (escalationDelta exAgent [raisedEscalation] repliedEscalation)"
  by (simp add: replied_by_manager)
     (simp add: escalationDelta_def exAgent_def repliedEscalation_def raisedEscalation_def)

text \<open>
  C9, amended. For an escalation found in the previous snapshot whose history has grown,
  and a viewer who is a manager or the escalation's agent, the notification
  \<^verbatim>\<open>New Message\<close> fires exactly when the status of the escalation is unchanged in the
  delta and the author of the last message is not the viewer. (When the status changed,
  the viewer receives \<^verbatim>\<open>Escalation Update\<close> instead.)
\<close>

theorem new_message_notification:
  assumes "find (\<lambda>e. esc_id e = esc_id newEsc) prevEscalations = Some oldEsc"
    and "length (history newEsc) > length (history oldEsc)"
    and "role viewer = MANAGER \<or> agentId newEsc = user_id viewer"
  shows "(list_ex (hasTitle ''New Message'') (escalationDelta viewer prevEscalations newEsc)
          \<longleftrightarrow> esc_status oldEsc = esc_status newEsc
              \<and> authorId (last (history newEsc)) \<noteq> user_id viewer)
         \<and> (esc_status oldEsc \<noteq> esc_status newEsc \<longrightarrow>
              list_ex (hasTitle ''Escalation Update'')
                (escalationDelta viewer prevEscalations newEsc))"
  using assms by (auto simp: escalationDelta_def Let_def)

theorem new_message_notification_witness:
  "find (\<lambda>e. esc_id e = esc_id followUpEscalation) [repliedEscalation] = Some repliedEscalation
   \<and> length (history followUpEscalation) > length (history repliedEscalation)
   \<and> agentId followUpEscalation = user_id exAgent
   \<and> esc_status repliedEscalation = esc_status followUpEscalation
   \<and> authorId (last (history followUpEscalation)) \<noteq> user_id exAgent
   \<and> list_ex (hasTitle ''New Message'')
        (escalationDelta exAgent [repliedEscalation] followUpEscalation)"
  using new_message_notification[of followUpEscalation "[repliedEscalation]" repliedEscalation
      exAgent]
  by (simp add: exAgent_def followUpEscalation_def repliedEscalation_def raisedEscalation_def)

subsection \<open>Closing an escalation\<close>




text \<open>
  C2. The code clears the flag without looking at the other escalations: with two open
  threads on one task, closing one leaves the task with \<^verbatim>\<open>isEscalated = false\<close> while
  the other thread is still open and references it.
\<close>

theorem close_clears_flag_despite_open_thread:
  "hasActiveEscalation (st_escalations twoThreads) scenarioTask
   \<and> onResolveClose exAgent 3000 (st_tasks twoThreads) repliedEscalation
       = Some (handleCloseEscalation 3000 (st_tasks twoThreads) repliedEscalation)
   \<and> st_tasks (applyCommands (handleCloseEscalation 3000 (st_tasks twoThreads) repliedEscalation)
                 twoThreads)
       = [scenarioTask\<lparr>isEscalated := Some False\<rparr>]
   \<and> st_escalations
        (applyCommands (handleCloseEscalation 3000 (st_tasks twoThreads) repliedEscalation)
           twoThreads)
       = [repliedEscalation\<lparr>esc_status := E_CLOSED, updatedAt := 3000\<rparr>, secondEscalation]
   \<and> taskId secondEscalation = task_id scenarioTask \<and> esc_status secondEscalation \<noteq> E_CLOSED
   \<and> hasActiveEscalation
        (st_escalations
           (applyCommands (handleCloseEscalation 3000 (st_tasks twoThreads) repliedEscalation)
              twoThreads))
        scenarioTask"
  by (simp add: twoThreads_def handleCloseEscalation_def applyCommands_def upsertBy_def
      hasActiveEscalation_def onResolveClose_def resolveCloseOffered_def exAgent_def
      repliedEscalation_def secondEscalation_def raisedEscalation_def scenarioTask_def)

subsection \<open>Completing a task by hand\<close>

text \<open>
  C5. The status select of the task board passes any status to \<^verbatim>\<open>handleStatusChange\<close>:
  a manager, and likewise the assignee, sets a QA task to \<^verbatim>\<open>DONE\<close> although an open
  escalation references it, while the button \<^verbatim>\<open>Mark Complete\<close> is withheld for the same
  task. The status select of the tracker has no guard either.
\<close>

theorem status_select_completes_automated_task:
  "task_type scenarioTask = QA \<and> task_status scenarioTask \<noteq> DONE
   \<and> hasActiveEscalations [raisedEscalation] scenarioTask
   \<and> taskBoardControl exManager 1200 [raisedEscalation] scenarioTask MarkCompleteButton = None
   \<and> taskBoardControl exManager 1200 [raisedEscalation] scenarioTask (StatusSelect DONE)
       = Some [UpdateTask (scenarioTask\<lparr>task_status := DONE\<rparr>)]
   \<and> taskBoardControl exAgent 1200 [raisedEscalation] scenarioTask (StatusSelect DONE)
       = Some [UpdateTask (scenarioTask\<lparr>task_status := DONE\<rparr>)]
   \<and> trackerHandleStatusChange [scenarioTask] DONE
       = [UpdateTask (scenarioTask\<lparr>task_status := DONE\<rparr>)]"
  by (simp add: taskBoardControl_def canEditTask_def isAutomatedTask_def hasActiveEscalations_def
      handleStatusChange_def handleTaskUpdate_def trackerHandleStatusChange_def exManager_def
      exAgent_def raisedEscalation_def scenarioTask_def)

theorem status_select_completes_automated_task_witness:
  "canEditTask exManager scenarioTask \<and> isAutomatedTask (task_type scenarioTask)
   \<and> taskBoardControl exManager 1200 [raisedEscalation] scenarioTask (StatusSelect DONE) \<noteq> None
   \<and> taskBoardControl exManager 1200 [raisedEscalation] scenarioTask MarkCompleteButton = None"
  using status_select_completes_automated_task
  by (simp add: canEditTask_def isAutomatedTask_def exManager_def)

subsection \<open>The manager-review task\<close>

lemma find_upsertBy:
  "find (\<lambda>y. key y = key x) (upsertBy key x xs) = Some x"
proof (cases "list_ex (\<lambda>y. key y = key x) xs")
  case True
  then show ?thesis
    by (induction xs) (auto simp: upsertBy_def)
next
  case False
  then have "\<forall>y \<in> set xs. key y \<noteq> key x"
    by (simp add: list_ex_iff)
  then have "find (\<lambda>y. key y = key x) (xs @ [x]) = Some x"
    by (induction xs) simp_all
  with False show ?thesis
    by (simp add: upsertBy_def)
qed

lemma task_commands_keep_invoices:
  assumes "\<forall>c \<in> set cmds. writtenTask c \<noteq> None"
  shows "st_invoices (fold applyCommand cmds s) = st_invoices s"
  using assms
proof (induction cmds arbitrary: s)
  case Nil
  then show ?case by simp
next
  case (Cons c cs)
  then have "st_invoices (applyCommand c s) = st_invoices s"
    by (cases c) simp_all
  with Cons show ?case by simp
qed

text \<open>
  The commands of \<^verbatim>\<open>handleUpdateInvoice\<close>, part by part: the invoice write, the sync of
  the companion task, the review task, the upload confirmation.
\<close>

lemma handleUpdateInvoice_parts:
  obtains sync review upload where
    "handleUpdateInvoice now toISO invoices tasks users upd
     = SaveInvoice upd # sync @ review @ upload"
    and "\<forall>c \<in> set sync. \<exists>t. c = UpdateTask t"
    and "\<forall>c \<in> set upload. \<exists>t. c = UpdateTask t"
    and "review = (if map_option inv_status (find (\<lambda>i. inv_id i = inv_id upd) invoices)
                        \<noteq> Some V_COMPLETED \<and> inv_status upd = V_COMPLETED
                   then (case find (\<lambda>u. role u = MANAGER) users of
                           None \<Rightarrow> []
                         | Some manager \<Rightarrow> [AddTask (managerTask now toISO manager upd)])
                   else [])"
proof -
  define sync where "sync =
    (case find (\<lambda>t. task_id t = ''task-'' @ inv_id upd) tasks of
       None \<Rightarrow> []
     | Some lt \<Rightarrow>
         [UpdateTask (lt\<lparr>
            assigneeId := orElse (inv_assigneeId upd) (assigneeId lt),
            dueDate := orElse (inv_dueDate upd) (dueDate lt),
            task_status := (if inv_status upd = V_COMPLETED \<or> inv_status upd = V_UPLOADED
                            then DONE else task_status lt)\<rparr>)])"
  define review where "review =
    (if map_option inv_status (find (\<lambda>i. inv_id i = inv_id upd) invoices) \<noteq> Some V_COMPLETED
        \<and> inv_status upd = V_COMPLETED
     then (case find (\<lambda>u. role u = MANAGER) users of
             None \<Rightarrow> []
           | Some manager \<Rightarrow> [AddTask (managerTask now toISO manager upd)])
     else [])"
  define upload where "upload =
    (if inv_status upd = V_UPLOADED
     then (case find (\<lambda>t. task_id t = ''task-mgr-'' @ inv_id upd) tasks of
             None \<Rightarrow> []
           | Some mgrTask \<Rightarrow>
               [UpdateTask (mgrTask\<lparr>task_status := DONE, completedAt := Some now\<rparr>)])
     else [])"
  have eq: "handleUpdateInvoice now toISO invoices tasks users upd
            = SaveInvoice upd # sync @ review @ upload"
    unfolding handleUpdateInvoice_def Let_def sync_def review_def upload_def by simp
  have s: "\<forall>c \<in> set sync. \<exists>t. c = UpdateTask t"
    unfolding sync_def by (cases "find (\<lambda>t. task_id t = ''task-'' @ inv_id upd) tasks") simp_all
  have u: "\<forall>c \<in> set upload. \<exists>t. c = UpdateTask t"
  proof (cases "inv_status upd = V_UPLOADED")
    case True
    then have "upload = (case find (\<lambda>t. task_id t = ''task-mgr-'' @ inv_id upd) tasks of
             None \<Rightarrow> []
           | Some mgrTask \<Rightarrow>
               [UpdateTask (mgrTask\<lparr>task_status := DONE, completedAt := Some now\<rparr>)])"
      by (simp add: upload_def)
    then show ?thesis
      by (cases "find (\<lambda>t. task_id t = ''task-mgr-'' @ inv_id upd) tasks") simp_all
  next
    case False
    then have "upload = []" by (simp add: upload_def)
    then show ?thesis by simp
  qed
  from eq s u review_def show thesis by (rule that)
qed

lemma updates_create_nothing:
  assumes "\<forall>c \<in> set cs. \<exists>t. c = UpdateTask t"
  shows "filter (createsTask k) cs = []" and "\<forall>c \<in> set cs. writtenTask c \<noteq> None"
  using assms by (auto simp: filter_empty_conv)

lemma review_part:
  fixes now :: nat and toISO :: "nat \<Rightarrow> string" and users :: "User list" and upd :: Invoice
    and invoices :: "Invoice list"
  defines "review \<equiv>
    (if map_option inv_status (find (\<lambda>i. inv_id i = inv_id upd) invoices) \<noteq> Some V_COMPLETED
        \<and> inv_status upd = V_COMPLETED
     then (case find (\<lambda>u. role u = MANAGER) users of
             None \<Rightarrow> []
           | Some manager \<Rightarrow> [AddTask (managerTask now toISO manager upd)])
     else [])"
  shows "length review \<le> 1"
    and "c \<in> set review \<Longrightarrow>
           inv_status upd = V_COMPLETED
           \<and> (\<exists>manager. find (\<lambda>u. role u = MANAGER) users = Some manager
                  \<and> c = AddTask (managerTask now toISO manager upd))"
    and "review \<noteq> [] \<longleftrightarrow>
           map_option inv_status (find (\<lambda>i. inv_id i = inv_id upd) invoices) \<noteq> Some V_COMPLETED
           \<and> inv_status upd = V_COMPLETED \<and> (\<exists>u \<in> set users. role u = MANAGER)"
proof -
  define edge where "edge \<longleftrightarrow>
    map_option inv_status (find (\<lambda>i. inv_id i = inv_id upd) invoices) \<noteq> Some V_COMPLETED
    \<and> inv_status upd = V_COMPLETED"
  have rv: "review = (if edge then (case find (\<lambda>u. role u = MANAGER) users of
                                      None \<Rightarrow> []
                                    | Some manager \<Rightarrow> [AddTask (managerTask now toISO manager upd)])
                      else [])"
    unfolding review_def edge_def by (rule refl)
  have m: "(find (\<lambda>u. role u = MANAGER) users = None) = (\<not> (\<exists>u \<in> set users. role u = MANAGER))"
    by (auto simp: find_None_iff)
  consider (quiet) "\<not> edge" | (nobody) "edge" "find (\<lambda>u. role u = MANAGER) users = None"
    | (fire) manager where "edge" "find (\<lambda>u. role u = MANAGER) users = Some manager"
    by (cases "find (\<lambda>u. role u = MANAGER) users") auto
  then have "(review = [] \<and> (\<not> edge \<or> \<not> (\<exists>u \<in> set users. role u = MANAGER)))
             \<or> (\<exists>manager. review = [AddTask (managerTask now toISO manager upd)] \<and> edge
                   \<and> find (\<lambda>u. role u = MANAGER) users = Some manager
                   \<and> (\<exists>u \<in> set users. role u = MANAGER))"
  proof cases
    case quiet
    then have "review = []" by (simp add: rv)
    with quiet show ?thesis by blast
  next
    case nobody
    then have "review = []" by (simp add: rv)
    with nobody m show ?thesis by blast
  next
    case fire
    then have "review = [AddTask (managerTask now toISO manager upd)]" by (simp add: rv)
    moreover from fire(2) m have "\<exists>u \<in> set users. role u = MANAGER" by simp
    ultimately show ?thesis using fire by blast
  qed
  then have "length review \<le> 1"
    and "c \<in> set review \<Longrightarrow>
           edge \<and> (\<exists>manager. find (\<lambda>u. role u = MANAGER) users = Some manager
                  \<and> c = AddTask (managerTask now toISO manager upd))"
    and "review \<noteq> [] \<longleftrightarrow> edge \<and> (\<exists>u \<in> set users. role u = MANAGER)"
    by auto
  then show "length review \<le> 1"
    and "c \<in> set review \<Longrightarrow>
           inv_status upd = V_COMPLETED
           \<and> (\<exists>manager. find (\<lambda>u. role u = MANAGER) users = Some manager
                  \<and> c = AddTask (managerTask now toISO manager upd))"
    and "review \<noteq> [] \<longleftrightarrow>
           map_option inv_status (find (\<lambda>i. inv_id i = inv_id upd) invoices) \<noteq> Some V_COMPLETED
           \<and> inv_status upd = V_COMPLETED \<and> (\<exists>u \<in> set users. role u = MANAGER)"
    unfolding edge_def by blast+
qed

lemma invoices_after_update:
  "st_invoices (applyCommands (handleUpdateInvoice now toISO invoices tasks users upd) s)
   = upsertBy inv_id upd (st_invoices s)"
proof -
  obtain sync review upload where p:
    "handleUpdateInvoice now toISO invoices tasks users upd
     = SaveInvoice upd # sync @ review @ upload"
    "\<forall>c \<in> set sync. \<exists>t. c = UpdateTask t"
    "\<forall>c \<in> set upload. \<exists>t. c = UpdateTask t"
    "review = (if map_option inv_status (find (\<lambda>i. inv_id i = inv_id upd) invoices)
                        \<noteq> Some V_COMPLETED \<and> inv_status upd = V_COMPLETED
                   then (case find (\<lambda>u. role u = MANAGER) users of
                           None \<Rightarrow> []
                         | Some manager \<Rightarrow> [AddTask (managerTask now toISO manager upd)])
                   else [])"
    by (rule handleUpdateInvoice_parts)
  have r: "\<forall>c \<in> set review. writtenTask c \<noteq> None"
    using review_part(2)[where upd=upd and invoices=invoices and users=users and now=now and toISO=toISO, folded p(4)] by fastforce
  have "\<forall>c \<in> set (sync @ review @ upload). writtenTask c \<noteq> None"
    using updates_create_nothing(2)[OF p(2)] updates_create_nothing(2)[OF p(3)] r by auto
  from task_commands_keep_invoices[OF this] show ?thesis
    by (simp add: applyCommands_def p(1))
qed

lemma creates_review_iff:
  "list_ex (createsTask (''task-mgr-'' @ inv_id upd))
     (handleUpdateInvoice now toISO invoices tasks users upd)
   \<longleftrightarrow> map_option inv_status (find (\<lambda>i. inv_id i = inv_id upd) invoices) \<noteq> Some V_COMPLETED
       \<and> inv_status upd = V_COMPLETED \<and> (\<exists>u \<in> set users. role u = MANAGER)"
proof -
  obtain sync review upload where p:
    "handleUpdateInvoice now toISO invoices tasks users upd
     = SaveInvoice upd # sync @ review @ upload"
    "\<forall>c \<in> set sync. \<exists>t. c = UpdateTask t"
    "\<forall>c \<in> set upload. \<exists>t. c = UpdateTask t"
    "review = (if map_option inv_status (find (\<lambda>i. inv_id i = inv_id upd) invoices)
                        \<noteq> Some V_COMPLETED \<and> inv_status upd = V_COMPLETED
                   then (case find (\<lambda>u. role u = MANAGER) users of
                           None \<Rightarrow> []
                         | Some manager \<Rightarrow> [AddTask (managerTask now toISO manager upd)])
                   else [])"
    by (rule handleUpdateInvoice_parts)
  have "list_ex (createsTask (''task-mgr-'' @ inv_id upd))
          (handleUpdateInvoice now toISO invoices tasks users upd)
        \<longleftrightarrow> list_ex (createsTask (''task-mgr-'' @ inv_id upd)) review"
    using p(2,3) by (auto simp: p(1) list_ex_iff)
  also have "\<dots> \<longleftrightarrow> review \<noteq> []"
  proof
    assume "list_ex (createsTask (''task-mgr-'' @ inv_id upd)) review"
    then show "review \<noteq> []" by auto
  next
    assume "review \<noteq> []"
    then obtain c where c: "c \<in> set review" by (cases review) auto
    from review_part(2)[where upd=upd and invoices=invoices and users=users and now=now and toISO=toISO, folded p(4), OF c]
    obtain manager where "c = AddTask (managerTask now toISO manager upd)" by blast
    then have "createsTask (''task-mgr-'' @ inv_id upd) c" by (simp add: managerTask_def)
    with c show "list_ex (createsTask (''task-mgr-'' @ inv_id upd)) review"
      by (auto simp: list_ex_iff)
  qed
  finally show ?thesis
    using review_part(3)[where upd=upd and invoices=invoices and users=users and now=now and toISO=toISO, folded p(4)] by simp
qed

lemma creates_at_most_one:
  "length (filter (createsTask k) (handleUpdateInvoice now toISO invoices tasks users upd)) \<le> 1"
proof -
  obtain sync review upload where p:
    "handleUpdateInvoice now toISO invoices tasks users upd
     = SaveInvoice upd # sync @ review @ upload"
    "\<forall>c \<in> set sync. \<exists>t. c = UpdateTask t"
    "\<forall>c \<in> set upload. \<exists>t. c = UpdateTask t"
    "review = (if map_option inv_status (find (\<lambda>i. inv_id i = inv_id upd) invoices)
                        \<noteq> Some V_COMPLETED \<and> inv_status upd = V_COMPLETED
                   then (case find (\<lambda>u. role u = MANAGER) users of
                           None \<Rightarrow> []
                         | Some manager \<Rightarrow> [AddTask (managerTask now toISO manager upd)])
                   else [])"
    by (rule handleUpdateInvoice_parts)
  have "length (filter (createsTask k) review) \<le> length review"
    by (rule length_filter_le)
  also have "\<dots> \<le> 1"
    using review_part(1)[where upd=upd and invoices=invoices and users=users and now=now and toISO=toISO, folded p(4)] .
  finally show ?thesis
    by (simp add: p(1) updates_create_nothing(1)[OF p(2)] updates_create_nothing(1)[OF p(3)])
qed

lemma creates_only_review:
  assumes "AddTask t \<in> set (handleUpdateInvoice now toISO invoices tasks users upd)"
  shows "task_id t = ''task-mgr-'' @ inv_id upd \<and> inv_status upd = V_COMPLETED
     \<and> (\<exists>manager. find (\<lambda>u. role u = MANAGER) users = Some manager
                    \<and> assigneeId t = user_id manager)"
proof -
  obtain sync review upload where p:
    "handleUpdateInvoice now toISO invoices tasks users upd
     = SaveInvoice upd # sync @ review @ upload"
    "\<forall>c \<in> set sync. \<exists>t. c = UpdateTask t"
    "\<forall>c \<in> set upload. \<exists>t. c = UpdateTask t"
    "review = (if map_option inv_status (find (\<lambda>i. inv_id i = inv_id upd) invoices)
                        \<noteq> Some V_COMPLETED \<and> inv_status upd = V_COMPLETED
                   then (case find (\<lambda>u. role u = MANAGER) users of
                           None \<Rightarrow> []
                         | Some manager \<Rightarrow> [AddTask (managerTask now toISO manager upd)])
                   else [])"
    by (rule handleUpdateInvoice_parts)
  from assms p(2,3) have "AddTask t \<in> set review" by (auto simp: p(1))
  from review_part(2)[where upd=upd and invoices=invoices and users=users and now=now and toISO=toISO, folded p(4), OF this]
  show ?thesis by (auto simp: managerTask_def)
qed

lemma card_action_facts:
  assumes "invoiceCardAction viewer users now toISO invoice act = Some upd"
  shows "inv_id upd = inv_id invoice"
    and "isFinalized invoice \<Longrightarrow> inv_status upd = V_UPLOADED"
  using assms
  by (auto simp: invoiceCardAction_def isFinalized_def
      split: if_splits InvoiceAction.splits)

lemma settled_creates_none:
  "(\<forall>v. find (\<lambda>v. inv_id v = i) (st_invoices s) = Some v \<longrightarrow> isFinalized v) \<Longrightarrow>
     filter (createsTask k) (invoiceLifetime toISO i s evs) = []"
proof (induction evs arbitrary: s)
  case Nil
  then show ?case by simp
next
  case (Cons ev evs)
  show ?case
  proof (cases "find (\<lambda>v. inv_id v = i) (st_invoices s)")
    case None
    with Cons show ?thesis by simp
  next
    case (Some invoice)
    with Cons.prems have fin: "isFinalized invoice" by simp
    from Some have idi: "inv_id invoice = i" by (auto dest: find_Some_iff[THEN iffD1])
    show ?thesis
    proof (cases "invoiceCardAction (ev_user ev) (ev_users ev) (ev_now ev) toISO invoice (ev_action ev)")
      case None
      with Some Cons show ?thesis by simp
    next
      case (Some upd)
      let ?cmds = "handleUpdateInvoice (ev_now ev) toISO (st_invoices s) (st_tasks s) (ev_users ev) upd"
      from card_action_facts[OF Some] fin idi
      have u: "inv_id upd = i" "inv_status upd = V_UPLOADED" by simp_all
      have "\<not> createsTask k c" if c: "c \<in> set ?cmds" for c
      proof
        assume "createsTask k c"
        then obtain t where "c = AddTask t" by (cases c) simp_all
        with c creates_only_review have "inv_status upd = V_COMPLETED" by blast
        with u(2) show False by simp
      qed
      then have none: "filter (createsTask k) ?cmds = []"
        by (simp add: filter_empty_conv)
      have "find (\<lambda>v. inv_id v = i) (st_invoices (applyCommands ?cmds s)) = Some upd"
        using find_upsertBy[of inv_id upd "st_invoices s"] u(1)
        by (simp add: invoices_after_update)
      then have "(\<forall>v. find (\<lambda>v. inv_id v = i) (st_invoices (applyCommands ?cmds s)) = Some v \<longrightarrow> isFinalized v)"
        using u(2) by (simp add: isFinalized_def)
      from Cons.IH[OF this] none Some \<open>find (\<lambda>v. inv_id v = i) (st_invoices s) = Some invoice\<close>
      show ?thesis by (simp add: Let_def)
    qed
  qed
qed

lemma lifetime_creates_at_most_one:
  "length (filter (createsTask k) (invoiceLifetime toISO i s evs)) \<le> 1"
proof (induction evs arbitrary: s)
  case Nil
  then show ?case by simp
next
  case (Cons ev evs)
  show ?case
  proof (cases "find (\<lambda>v. inv_id v = i) (st_invoices s)")
    case None
    with Cons show ?thesis by simp
  next
    case found: (Some invoice)
    from found have idi: "inv_id invoice = i" by (auto dest: find_Some_iff[THEN iffD1])
    show ?thesis
    proof (cases "invoiceCardAction (ev_user ev) (ev_users ev) (ev_now ev) toISO invoice (ev_action ev)")
      case None
      with found Cons show ?thesis by simp
    next
      case (Some upd)
      let ?cmds = "handleUpdateInvoice (ev_now ev) toISO (st_invoices s) (st_tasks s) (ev_users ev) upd"
      from card_action_facts(1)[OF Some] idi have u: "inv_id upd = i" by simp
      have after: "find (\<lambda>v. inv_id v = i) (st_invoices (applyCommands ?cmds s)) = Some upd"
        using find_upsertBy[of inv_id upd "st_invoices s"] u
        by (simp add: invoices_after_update)
      have unfold: "invoiceLifetime toISO i s (ev # evs)
                    = ?cmds @ invoiceLifetime toISO i (applyCommands ?cmds s) evs"
        using found Some by (simp add: Let_def)
      show ?thesis
      proof (cases "filter (createsTask k) ?cmds = []")
        case True
        with Cons.IH[of "applyCommands ?cmds s"] unfold show ?thesis by simp
      next
        case False
        then obtain c where c: "c \<in> set ?cmds" "createsTask k c"
          by (auto simp: filter_empty_conv)
        from c(2) obtain t where "c = AddTask t" by (cases c) simp_all
        with c(1) creates_only_review have "inv_status upd = V_COMPLETED" by blast
        with after have "(\<forall>v. find (\<lambda>v. inv_id v = i) (st_invoices (applyCommands ?cmds s)) = Some v \<longrightarrow> isFinalized v)"
          by (simp add: isFinalized_def)
        from settled_creates_none[OF this]
        have "filter (createsTask k) (invoiceLifetime toISO i (applyCommands ?cmds s) evs) = []" .
        with creates_at_most_one[of k "ev_now ev" toISO "st_invoices s" "st_tasks s" "ev_users ev" upd]
          unfold show ?thesis by simp
      qed
    qed
  qed
qed


text \<open>
  C3, as stated, fails: the update crosses the edge into \<^verbatim>\<open>COMPLETED\<close>, no user has
  the role \<^verbatim>\<open>MANAGER\<close>, and no manager-review task is created.
\<close>

theorem review_task_needs_manager_counterexample:
  "map_option inv_status (find (\<lambda>i. inv_id i = inv_id exCompletedInvoice) [exInvoice])
     \<noteq> Some V_COMPLETED
   \<and> inv_status exCompletedInvoice = V_COMPLETED
   \<and> \<not> list_ex (createsTask (''task-mgr-'' @ inv_id exCompletedInvoice))
         (handleUpdateInvoice 3000 exISO [exInvoice] [exCompanionTask] [exAgent]
            exCompletedInvoice)"
  using creates_review_iff[of exCompletedInvoice 3000 exISO "[exInvoice]" "[exCompanionTask]"
      "[exAgent]"]
  by (simp add: exCompletedInvoice_def exInvoice_def exAgent_def)

text \<open>
  C3, amended. An invoice update creates the manager-review task (id \<^verbatim>\<open>task-mgr-\<close>
  followed by the invoice id) exactly when the old status is not \<^verbatim>\<open>COMPLETED\<close>, the new
  status is \<^verbatim>\<open>COMPLETED\<close> and a user with the role \<^verbatim>\<open>MANAGER\<close> exists; one update
  creates at most one. In particular an update whose old and new status are both
  \<^verbatim>\<open>COMPLETED\<close> creates none. Over the life of one invoice, driven by the controls the
  invoice cards offer, at most one manager-review task is ever created.
\<close>

theorem manager_review_task_edge:
  "(list_ex (createsTask (''task-mgr-'' @ inv_id upd))
      (handleUpdateInvoice now toISO invoices tasks users upd)
    \<longleftrightarrow> map_option inv_status (find (\<lambda>i. inv_id i = inv_id upd) invoices) \<noteq> Some V_COMPLETED
        \<and> inv_status upd = V_COMPLETED \<and> (\<exists>u \<in> set users. role u = MANAGER))
   \<and> length (filter (createsTask (''task-mgr-'' @ inv_id upd))
               (handleUpdateInvoice now toISO invoices tasks users upd)) \<le> 1
   \<and> length (filter (createsTask (''task-mgr-'' @ i)) (invoiceLifetime toISO i s evs)) \<le> 1"
  using creates_review_iff[of upd now toISO invoices tasks users]
    creates_at_most_one[of "''task-mgr-'' @ inv_id upd" now toISO invoices tasks users upd]
    lifetime_creates_at_most_one[of "''task-mgr-'' @ i" toISO i s evs]
  by blast

lemma lifetime_step:
  assumes "find (\<lambda>v. inv_id v = i) (st_invoices s) = Some invoice"
    and "invoiceCardAction (ev_user ev) (ev_users ev) (ev_now ev) toISO invoice (ev_action ev)
         = Some upd"
  shows "invoiceLifetime toISO i s (ev # evs)
         = handleUpdateInvoice (ev_now ev) toISO (st_invoices s) (st_tasks s) (ev_users ev) upd
           @ invoiceLifetime toISO i
               (applyCommands
                  (handleUpdateInvoice (ev_now ev) toISO (st_invoices s) (st_tasks s)
                     (ev_users ev) upd) s) evs"
  using assms by (simp add: Let_def)

lemma example_first_event:
  "invoiceLifetime exISO ''inv1'' exStore exEvents
   = handleUpdateInvoice 3000 exISO [exInvoice] [exCompanionTask] [exAgent, exManager]
       exCompletedInvoice
     @ invoiceLifetime exISO ''inv1''
         (applyCommands
            (handleUpdateInvoice 3000 exISO [exInvoice] [exCompanionTask] [exAgent, exManager]
               exCompletedInvoice) exStore)
         (tl exEvents)"
proof -
  define e where "e = \<lparr>ev_user = exAgent, ev_users = [exAgent, exManager], ev_now = 3000,
                         ev_action = SubmitComplete exFinalCsv\<rparr>"
  have ev: "exEvents = e # tl exEvents"
    by (simp add: exEvents_def e_def)
  have sel: "ev_user e = exAgent" "ev_users e = [exAgent, exManager]" "ev_now e = 3000"
    "ev_action e = SubmitComplete exFinalCsv"
    by (simp_all add: e_def)
  have f: "find (\<lambda>v. inv_id v = ''inv1'') (st_invoices exStore) = Some exInvoice"
    by (simp add: exStore_def exInvoice_def)
  have a: "invoiceCardAction (ev_user e) (ev_users e) (ev_now e) exISO exInvoice (ev_action e)
           = Some exCompletedInvoice"
    unfolding sel
    by (simp add: invoiceCardAction_def isFinalized_def exAgent_def exInvoice_def
        exCompletedInvoice_def exFinalCsv_def)
  have s: "st_invoices exStore = [exInvoice]" "st_tasks exStore = [exCompanionTask]"
    by (simp_all add: exStore_def)
  from lifetime_step[OF f a, of "tl exEvents"] show ?thesis
    unfolding sel s ev[symmetric] .
qed

theorem manager_review_task_edge_witness:
  "list_ex (createsTask (''task-mgr-'' @ inv_id exCompletedInvoice))
     (handleUpdateInvoice 3000 exISO [exInvoice] [exCompanionTask] [exAgent, exManager]
        exCompletedInvoice)
   \<and> map_option inv_status (find (\<lambda>i. inv_id i = inv_id exCompletedInvoice) [exInvoice])
       \<noteq> Some V_COMPLETED
   \<and> inv_status exCompletedInvoice = V_COMPLETED
   \<and> (\<exists>u \<in> set [exAgent, exManager]. role u = MANAGER)
   \<and> length (filter (createsTask (''task-mgr-'' @ ''inv1''))
               (invoiceLifetime exISO ''inv1'' exStore exEvents)) = 1"
proof -
  note t = manager_review_task_edge[of exCompletedInvoice 3000 exISO "[exInvoice]"
      "[exCompanionTask]" "[exAgent, exManager]" "''inv1''" exStore exEvents]
  have i: "inv_id exCompletedInvoice = ''inv1''"
    by (simp add: exCompletedInvoice_def exInvoice_def)
  have h: "map_option inv_status (find (\<lambda>i. inv_id i = inv_id exCompletedInvoice) [exInvoice])
             \<noteq> Some V_COMPLETED"
    "inv_status exCompletedInvoice = V_COMPLETED"
    "\<exists>u \<in> set [exAgent, exManager]. role u = MANAGER"
    by (simp_all add: exCompletedInvoice_def exInvoice_def exManager_def)
  from t h have c: "list_ex (createsTask (''task-mgr-'' @ inv_id exCompletedInvoice))
     (handleUpdateInvoice 3000 exISO [exInvoice] [exCompanionTask] [exAgent, exManager]
        exCompletedInvoice)" by blast
  then obtain x where x: "x \<in> set (handleUpdateInvoice 3000 exISO [exInvoice] [exCompanionTask]
        [exAgent, exManager] exCompletedInvoice)" "createsTask (''task-mgr-'' @ ''inv1'') x"
    unfolding list_ex_iff i by blast
  then have "x \<in> set (filter (createsTask (''task-mgr-'' @ ''inv1''))
               (invoiceLifetime exISO ''inv1'' exStore exEvents))"
    unfolding example_first_event by (simp del: append.simps)
  then have "length (filter (createsTask (''task-mgr-'' @ ''inv1''))
               (invoiceLifetime exISO ''inv1'' exStore exEvents)) \<noteq> 0"
    by (metis length_0_conv empty_iff list.set(1))
  moreover from t have "length (filter (createsTask (''task-mgr-'' @ ''inv1''))
               (invoiceLifetime exISO ''inv1'' exStore exEvents)) \<le> 1" by blast
  ultimately have "length (filter (createsTask (''task-mgr-'' @ ''inv1''))
               (invoiceLifetime exISO ''inv1'' exStore exEvents)) = 1" by linarith
  with c h show ?thesis by blast
qed

subsection \<open>Running a cycle twice\<close>

lemma find_self:
  assumes "distinct (map key xs)" and "x \<in> set xs"
  shows "find (\<lambda>y. key y = key x) xs = Some x"
  using assms
proof (induction xs)
  case Nil
  then show ?case by simp
next
  case (Cons a xs)
  show ?case
  proof (cases "x = a")
    case True
    then show ?thesis by simp
  next
    case False
    with Cons.prems have "x \<in> set xs" "key a \<notin> key ` set xs" "distinct (map key xs)"
      by auto
    then have "key a \<noteq> key x" by (metis imageI)
    with Cons.IH \<open>distinct (map key xs)\<close> \<open>x \<in> set xs\<close> show ?thesis by simp
  qed
qed

lemma taskDelta_same:
  "find (\<lambda>t. task_id t = task_id newTask) prevTasks = Some newTask \<Longrightarrow>
     taskDelta viewer users prevTasks newTask = []"
  by (simp add: taskDelta_def)

lemma invoiceDelta_same:
  "find (\<lambda>i. inv_id i = inv_id newInv) prevInvoices = Some newInv \<Longrightarrow>
     invoiceDelta viewer prevInvoices newInv = []"
  by (simp add: invoiceDelta_def)

lemma escalationDelta_same:
  "find (\<lambda>e. esc_id e = esc_id newEsc) prevEscalations = Some newEsc \<Longrightarrow>
     escalationDelta viewer prevEscalations newEsc = []"
  by (simp add: escalationDelta_def)

lemma same_snapshot_silent:
  assumes "distinct (map task_id tasks)" and "distinct (map inv_id invoices)"
    and "distinct (map esc_id escalations)"
  shows "concat (map (taskDelta viewer users tasks) tasks)
         @ concat (map (invoiceDelta viewer invoices) invoices)
         @ concat (map (escalationDelta viewer escalations) escalations) = []"
proof -
  have "\<forall>t \<in> set tasks. taskDelta viewer users tasks t = []"
    using find_self[OF assms(1)] taskDelta_same by blast
  moreover have "\<forall>i \<in> set invoices. invoiceDelta viewer invoices i = []"
    using find_self[OF assms(2)] invoiceDelta_same by blast
  moreover have "\<forall>e \<in> set escalations. escalationDelta viewer escalations e = []"
    using find_self[OF assms(3)] escalationDelta_same by blast
  ultimately show ?thesis by simp
qed

lemma second_cycle_silent:
  assumes "distinct (map task_id tasks)" and "distinct (map inv_id invoices)"
    and "distinct (map esc_id escalations)"
  shows "snd (notificationEffect
                (fst (notificationEffect refs tasks invoices escalations viewer users))
                tasks invoices escalations viewer users) = []"
proof (cases "isFirstLoad refs")
  case True
  show ?thesis
  proof (cases "tasks \<noteq> [] \<or> invoices \<noteq> []")
    case False
    with True show ?thesis by (simp add: notificationEffect_def)
  next
    case ne: True
    show ?thesis
    proof (cases viewer)
      case None
      with True ne show ?thesis by (auto simp: notificationEffect_def)
    next
      case (Some cu)
      with True ne same_snapshot_silent[OF assms, of cu users] show ?thesis
        by (auto simp: notificationEffect_def)
    qed
  qed
next
  case False
  show ?thesis
  proof (cases viewer)
    case None
    with False show ?thesis by (simp add: notificationEffect_def)
  next
    case (Some cu)
    with False same_snapshot_silent[OF assms, of cu users] show ?thesis
      by (simp add: notificationEffect_def)
  qed
qed

lemma upsertBy_elems:
  "x \<in> set (upsertBy key d xs) \<Longrightarrow> x = d \<or> (x \<in> set xs \<and> key x \<noteq> key d)"
  by (auto simp: upsertBy_def list_ex_iff split: if_splits)

lemma done_updates_elems:
  assumes "\<forall>c \<in> set cmds. \<exists>d. c = UpdateTask d \<and> task_status d = DONE"
    and "x \<in> set (st_tasks (fold applyCommand cmds s))"
  shows "task_status x = DONE
         \<or> (x \<in> set (st_tasks s) \<and> (\<forall>c \<in> set cmds. \<not> writesTaskId (task_id x) c))"
  using assms
proof (induction cmds arbitrary: s)
  case Nil
  then show ?case by simp
next
  case (Cons c cs)
  from Cons.prems(1) obtain d where d: "c = UpdateTask d" "task_status d = DONE" by auto
  from Cons.prems have "x \<in> set (st_tasks (fold applyCommand cs (applyCommand c s)))" by simp
  with Cons.IH[of "applyCommand c s"] Cons.prems(1)
  consider "task_status x = DONE"
    | "x \<in> set (st_tasks (applyCommand c s))" "\<forall>c \<in> set cs. \<not> writesTaskId (task_id x) c"
    by auto
  then show ?case
  proof cases
    case 1
    then show ?thesis by simp
  next
    case 2
    from 2(1) d(1) have "x \<in> set (upsertBy task_id d (st_tasks s))" by simp
    from upsertBy_elems[OF this] show ?thesis
    proof
      assume "x = d"
      with d(2) show ?thesis by simp
    next
      assume "x \<in> set (st_tasks s) \<and> task_id x \<noteq> task_id d"
      with 2(2) d(1) show ?thesis by (auto simp: writesTaskId_def)
    qed
  qed
qed

lemma updates_keep_escalations:
  assumes "\<forall>c \<in> set cmds. \<exists>d. c = UpdateTask d"
  shows "st_escalations (fold applyCommand cmds s) = st_escalations s"
  using assms
proof (induction cmds arbitrary: s)
  case Nil
  then show ?case by simp
next
  case (Cons c cs)
  then obtain d where "c = UpdateTask d" by auto
  with Cons show ?case by simp
qed

lemma autoCompleteTask_time:
  "autoCompleteTask now inventories escalations t = [] \<Longrightarrow>
     autoCompleteTask now' inventories escalations t = []"
  by (auto simp: autoCompleteTask_def split: if_splits option.splits)

lemma autoCompleteTask_done:
  "task_status t = DONE \<Longrightarrow> autoCompleteTask now inventories escalations t = []"
  by (simp add: autoCompleteTask_def)

lemma autoCompleteEffect_elems:
  "c \<in> set (autoCompleteEffect now tasks inventories escalations) \<Longrightarrow>
     \<exists>t \<in> set tasks. c = UpdateTask (t\<lparr>task_status := DONE, completedAt := Some now\<rparr>)"
proof -
  assume "c \<in> set (autoCompleteEffect now tasks inventories escalations)"
  then obtain t where "t \<in> set tasks" "c \<in> set (autoCompleteTask now inventories escalations t)"
    by (cases "tasks = [] \<or> inventories = []") (auto simp: autoCompleteEffect_def)
  with autoCompleteTask_writes show ?thesis by blast
qed

lemma rerun_after_writes:
  "autoCompleteEffect now'
     (st_tasks (applyCommands (autoCompleteEffect now (st_tasks s) inventories (st_escalations s)) s))
     inventories
     (st_escalations
        (applyCommands (autoCompleteEffect now (st_tasks s) inventories (st_escalations s)) s))
   = []"
proof -
  let ?cmds = "autoCompleteEffect now (st_tasks s) inventories (st_escalations s)"
  have shape: "\<forall>c \<in> set ?cmds. \<exists>d. c = UpdateTask d \<and> task_status d = DONE"
  proof
    fix c assume "c \<in> set ?cmds"
    from autoCompleteEffect_elems[OF this] show "\<exists>d. c = UpdateTask d \<and> task_status d = DONE"
      by auto
  qed
  then have "\<forall>c \<in> set ?cmds. \<exists>d. c = UpdateTask d" by blast
  from updates_keep_escalations[OF this]
  have esc: "st_escalations (applyCommands ?cmds s) = st_escalations s"
    by (simp add: applyCommands_def)
  have quiet: "autoCompleteTask now' inventories (st_escalations s) x = []"
    if x: "x \<in> set (st_tasks (applyCommands ?cmds s))" for x
  proof -
    from x have "x \<in> set (st_tasks (fold applyCommand ?cmds s))" by (simp add: applyCommands_def)
    from done_updates_elems[OF shape this] show ?thesis
    proof
      assume "task_status x = DONE"
      then show ?thesis by (rule autoCompleteTask_done)
    next
      assume a: "x \<in> set (st_tasks s) \<and> (\<forall>c \<in> set ?cmds. \<not> writesTaskId (task_id x) c)"
      have "autoCompleteTask now inventories (st_escalations s) x = []"
      proof (rule ccontr)
        assume ne: "autoCompleteTask now inventories (st_escalations s) x \<noteq> []"
        then obtain c where c: "c \<in> set (autoCompleteTask now inventories (st_escalations s) x)"
          by (cases "autoCompleteTask now inventories (st_escalations s) x") auto
        from autoCompleteTask_writes[OF c] have w: "writesTaskId (task_id x) c"
          by (simp add: writesTaskId_def)
        from ne have "inventories \<noteq> []"
          by (auto simp: autoCompleteTask_def split: if_splits option.splits)
        with a c have "c \<in> set ?cmds" by (auto simp: autoCompleteEffect_def)
        with a w show False by blast
      qed
      then show ?thesis by (rule autoCompleteTask_time)
    qed
  qed
  show ?thesis
    unfolding esc using quiet by (simp add: autoCompleteEffect_def)
qed

text \<open>
  C7, as stated, fails for the commands: the automation effect is a function of the
  collections, so a second run on the same collections (the task still not
  \<^verbatim>\<open>DONE\<close> in the snapshot) issues the update again.
\<close>

theorem rerun_reissues_update_counterexample:
  "autoCompleteEffect 1000 [scenarioTask] [scenarioInventory] []
     = [UpdateTask (scenarioTask\<lparr>task_status := DONE, completedAt := Some 1000\<rparr>)]
   \<and> autoCompleteEffect 2000 [scenarioTask] [scenarioInventory] []
     = [UpdateTask (scenarioTask\<lparr>task_status := DONE, completedAt := Some 2000\<rparr>)]"
proof -
  have c: "ruleOneConditions [scenarioInventory] [] scenarioTask"
    by (simp add: ruleOneConditions_def scenarioInventory_def scenarioTask_def)
  have "autoCompleteTask now [scenarioInventory] [] scenarioTask
        = [UpdateTask (scenarioTask\<lparr>task_status := DONE, completedAt := Some now\<rparr>)]" for now
    using autoCompleteTask_cases[of scenarioTask "[''i1'', ''i2'']" now "[scenarioInventory]" "[]"] c
    by (simp add: scenarioTask_def)
  then show ?thesis by (simp add: autoCompleteEffect_def)
qed

text \<open>
  C7, amended. With ids unique within each collection, a second run of the notification
  effect on the same collections, viewer and users emits nothing (no notification, no
  alert), whatever the refs were before the first run. The automation effect issues no
  command when it is run on the tables in which its own writes have landed; run again on
  the unchanged collections it issues the same updates again.
\<close>

theorem second_cycle_idempotent:
  assumes "distinct (map task_id tasks)" and "distinct (map inv_id invoices)"
    and "distinct (map esc_id escalations)"
  shows "snd (notificationEffect
                (fst (notificationEffect refs tasks invoices escalations viewer users))
                tasks invoices escalations viewer users) = []
         \<and> autoCompleteEffect now'
              (st_tasks (applyCommands
                 (autoCompleteEffect now (st_tasks s) inventories (st_escalations s)) s))
              inventories
              (st_escalations (applyCommands
                 (autoCompleteEffect now (st_tasks s) inventories (st_escalations s)) s))
            = []"
  using second_cycle_silent[OF assms] rerun_after_writes by blast

theorem second_cycle_idempotent_witness:
  "distinct (map task_id [scenarioTask\<lparr>isEscalated := Some True\<rparr>])
   \<and> distinct (map inv_id [exInvoice]) \<and> distinct (map esc_id [raisedEscalation])
   \<and> snd (notificationEffect
             \<lparr>prevTasksRef = [scenarioTask], prevInvoicesRef = [exInvoice],
              prevEscalationsRef = [], isFirstLoad = False\<rparr>
             [scenarioTask\<lparr>isEscalated := Some True\<rparr>] [exInvoice] [raisedEscalation]
             (Some exManager) [exManager, exAgent]) \<noteq> []
   \<and> snd (notificationEffect
             (fst (notificationEffect
                     \<lparr>prevTasksRef = [scenarioTask], prevInvoicesRef = [exInvoice],
                      prevEscalationsRef = [], isFirstLoad = False\<rparr>
                     [scenarioTask\<lparr>isEscalated := Some True\<rparr>] [exInvoice] [raisedEscalation]
                     (Some exManager) [exManager, exAgent]))
             [scenarioTask\<lparr>isEscalated := Some True\<rparr>] [exInvoice] [raisedEscalation]
             (Some exManager) [exManager, exAgent]) = []
   \<and> autoCompleteEffect 2000
        (st_tasks (applyCommands
           (autoCompleteEffect 1000 (st_tasks scenarioStore) [scenarioInventory]
              (st_escalations scenarioStore)) scenarioStore))
        [scenarioInventory]
        (st_escalations (applyCommands
           (autoCompleteEffect 1000 (st_tasks scenarioStore) [scenarioInventory]
              (st_escalations scenarioStore)) scenarioStore))
       = []"
proof -
  have d: "distinct (map task_id [scenarioTask\<lparr>isEscalated := Some True\<rparr>])"
    "distinct (map inv_id [exInvoice])" "distinct (map esc_id [raisedEscalation])"
    by simp_all
  have first: "snd (notificationEffect
             \<lparr>prevTasksRef = [scenarioTask], prevInvoicesRef = [exInvoice],
              prevEscalationsRef = [], isFirstLoad = False\<rparr>
             [scenarioTask\<lparr>isEscalated := Some True\<rparr>] [exInvoice] [raisedEscalation]
             (Some exManager) [exManager, exAgent]) \<noteq> []"
    by (simp add: notificationEffect_def escalationDelta_def exManager_def Let_def)
  from second_cycle_idempotent[OF d,
      of "\<lparr>prevTasksRef = [scenarioTask], prevInvoicesRef = [exInvoice],
           prevEscalationsRef = [], isFirstLoad = False\<rparr>"
         "Some exManager" "[exManager, exAgent]" 2000 1000 scenarioStore "[scenarioInventory]"]
    d first
  show ?thesis by blast
qed

end
